theory Spec2Isabelle
  imports Main
begin

section \<open>Overview\<close>

text \<open>
  A model of the class \<open>WebSocketHandler\<close> (in \<open>src/lib/alert/alertManager.js\<close>): the
  registry of client connections, the rooms, the heartbeat, the router of inbound
  messages with its handlers, and the two broadcasts; with it the part of the database
  instances that the handler depends on, the \<open>subscribe\<close> methods of \<open>FirebaseDB\<close> (same
  file) and of \<open>DatabaseAdapter\<close> (\<open>src/lib/db/databaseAdapter.js\<close>). The handler runs
  on a single event loop: each listener and each timer callback runs until it returns or
  suspends, and a suspended handler resumes as an event of its own; so a callback is a
  function from state to state and an execution is a list of events.
\<close>


section \<open>JavaScript values\<close>

text \<open>
  The values that \<open>JSON.parse\<close> produces, plus \<open>undefined\<close> (the value of a missing
  property). A number is given by the text that \<open>String\<close> renders it as (\<open>21\<close>,
  \<open>21.5\<close>, \<open>1e+21\<close>): two numbers are the same value exactly when their renderings are
  the same, and zero is the one rendered as \<open>0\<close>. Strings are lists of characters below
  \<open>U+0100\<close>; strings with other characters are outside the model. An object is the list
  of its own properties, keys distinct, in the order of enumeration; what an object or an
  array inherits from its prototype is \<open>inherited\<close> below.
\<close>

datatype json =
    JUndefined
  | JNull
  | JBool bool
  | JNum string
  | JStr string
  | JArr "json list"
  | JObj "(string \<times> json) list"

text \<open>
  The errors that the model raises: a \<open>TypeError\<close> of the language with its message, and
  the failure of a \<open>send\<close> of the transport library. The latter is caught where it is
  raised and only logged, so that its message is never part of an answer.
\<close>

datatype error = TypeError string | SendError

definition message_of :: "error \<Rightarrow> string" where
  "message_of e = (case e of TypeError m \<Rightarrow> m | SendError \<Rightarrow> ''send failed'')"

text \<open>Truthiness, as \<open>!x\<close>, \<open>a || b\<close> and \<open>if (x)\<close> test it.\<close>

fun truthy :: "json \<Rightarrow> bool" where
  "truthy JUndefined = False"
| "truthy JNull = False"
| "truthy (JBool b) = b"
| "truthy (JNum r) = (r \<noteq> ''0'')"
| "truthy (JStr s) = (s \<noteq> [])"
| "truthy (JArr xs) = True"
| "truthy (JObj kvs) = True"

definition js_or :: "json \<Rightarrow> json \<Rightarrow> json" where
  "js_or a b = (if truthy a then a else b)"

text \<open>\<open>typeof x === 'object'\<close>: objects, arrays and \<open>null\<close>.\<close>

fun typeof_object :: "json \<Rightarrow> bool" where
  "typeof_object JNull = True"
| "typeof_object (JArr xs) = True"
| "typeof_object (JObj kvs) = True"
| "typeof_object v = False"

text \<open>
  The decimal rendering of a natural number or an integer of the model: the length of an
  array, a time in milliseconds.
\<close>

definition digit_char :: "nat \<Rightarrow> char" where
  "digit_char d = char_of (48 + d)"

fun show_nat :: "nat \<Rightarrow> string" where
  "show_nat n = (if n < 10 then [digit_char n] else show_nat (n div 10) @ [digit_char (n mod 10)])"

declare show_nat.simps [simp del]

definition show_int :: "int \<Rightarrow> string" where
  "show_int i = (if i < 0 then CHR ''-'' # show_nat (nat (- i)) else show_nat (nat i))"

fun join_comma :: "string list \<Rightarrow> string" where
  "join_comma [] = []"
| "join_comma [s] = s"
| "join_comma (s # t # ss) = s @ '','' @ join_comma (t # ss)"

text \<open>
  \<open>String(x)\<close>, which is also what a template literal applies. An object is rendered by
  the \<open>toString\<close> it inherits, unless it has an own property of that name: the value of
  such a property is data, not a function, the inherited \<open>valueOf\<close> returns the object
  itself, and the conversion raises a \<open>TypeError\<close>. An array renders its elements in
  order, separated by commas, \<open>null\<close> and \<open>undefined\<close> elements as the empty string; it
  raises when an element does.
\<close>

definition cannot_convert :: error where
  "cannot_convert = TypeError ''Cannot convert object to primitive value''"

fun js_String :: "json \<Rightarrow> error + string"
  and js_Strings :: "json list \<Rightarrow> error + string list" where
  "js_String JUndefined = Inr ''undefined''"
| "js_String JNull = Inr ''null''"
| "js_String (JBool b) = Inr (if b then ''true'' else ''false'')"
| "js_String (JNum r) = Inr r"
| "js_String (JStr s) = Inr s"
| "js_String (JArr xs) = (case js_Strings xs of Inl e \<Rightarrow> Inl e | Inr ss \<Rightarrow> Inr (join_comma ss))"
| "js_String (JObj kvs) =
     (if map_of kvs ''toString'' = None then Inr ''[object Object]'' else Inl cannot_convert)"
| "js_Strings [] = Inr []"
| "js_Strings (x # xs) =
     (case (if x = JNull \<or> x = JUndefined then Inr [] else js_String x) of
        Inl e \<Rightarrow> Inl e
      | Inr s \<Rightarrow> (case js_Strings xs of Inl e \<Rightarrow> Inl e | Inr ss \<Rightarrow> Inr (s # ss)))"

text \<open>
  \<open>s.trim()\<close>: white space and line terminators are removed at both ends. Among the
  characters of the model these are the tab, the line feed, the vertical tab, the form
  feed, the carriage return, the space and the no-break space.
\<close>

definition is_js_space :: "char \<Rightarrow> bool" where
  "is_js_space c = (of_char c \<in> {9, 10, 11, 12, 13, 32, 160 :: nat})"

definition js_trim :: "string \<Rightarrow> string" where
  "js_trim s = rev (dropWhile is_js_space (rev (dropWhile is_js_space s)))"

text \<open>
  The own property \<open>name\<close> of \<open>x\<close>, \<open>undefined\<close> when it has none. Arrays and strings
  answer \<open>length\<close> and their canonical indices; numbers and booleans have no own
  properties. This is the whole of \<open>x[name]\<close> for the names that the handler reads from a
  message (\<open>type\<close>, \<open>data\<close>, \<open>payload\<close>, \<open>token\<close>, \<open>table\<close>, \<open>filters\<close>,
  \<open>options\<close>, \<open>whereClause\<close>, \<open>whereParams\<close>, \<open>roomId\<close>), none of which is the name
  of an inherited member.
\<close>

definition index_prop :: "'a list \<Rightarrow> string \<Rightarrow> 'a option" where
  "index_prop xs name =
     (case find (\<lambda>i. show_nat i = name) [0..<length xs] of
        None \<Rightarrow> None
      | Some i \<Rightarrow> Some (xs ! i))"

fun get_prop :: "json \<Rightarrow> string \<Rightarrow> json" where
  "get_prop (JObj kvs) name = (case map_of kvs name of None \<Rightarrow> JUndefined | Some v \<Rightarrow> v)"
| "get_prop (JArr xs) name =
     (if name = ''length'' then JNum (show_nat (length xs))
      else case index_prop xs name of None \<Rightarrow> JUndefined | Some v \<Rightarrow> v)"
| "get_prop (JStr s) name =
     (if name = ''length'' then JNum (show_nat (length s))
      else case index_prop s name of None \<Rightarrow> JUndefined | Some c \<Rightarrow> JStr [c])"
| "get_prop v name = JUndefined"

text \<open>Whether \<open>x\<close> has an own property \<open>name\<close>.\<close>

fun has_own :: "json \<Rightarrow> string \<Rightarrow> bool" where
  "has_own (JObj kvs) name = (map_of kvs name \<noteq> None)"
| "has_own (JArr xs) name = (name = ''length'' \<or> index_prop xs name \<noteq> None)"
| "has_own (JStr s) name = (name = ''length'' \<or> index_prop s name \<noteq> None)"
| "has_own v name = False"

text \<open>
  What \<open>x[name]\<close> finds on the prototype chain when \<open>x\<close>, an object or an array, has no
  own property \<open>name\<close>, given by its rendering under \<open>String\<close>: the members of
  \<open>Object.prototype\<close> and, for an array, of \<open>Array.prototype\<close> (as of ECMAScript 2023)
  are functions, rendered as native code; \<open>__proto__\<close> is the prototype itself, and
  \<open>Array.prototype\<close>, an empty array, renders as the empty string. It is asked only of
  objects and arrays (\<open>_validateSensorData\<close> has refused every other value before it
  reads a member); the last equation is not what a string, a number or a boolean
  inherits.
\<close>

definition object_prototype :: "string list" where
  "object_prototype =
     [''constructor'', ''__defineGetter__'', ''__defineSetter__'', ''hasOwnProperty'',
      ''__lookupGetter__'', ''__lookupSetter__'', ''isPrototypeOf'', ''propertyIsEnumerable'',
      ''toString'', ''valueOf'', ''toLocaleString'']"

definition array_prototype :: "string list" where
  "array_prototype =
     [''constructor'', ''at'', ''concat'', ''copyWithin'', ''fill'', ''find'', ''findIndex'',
      ''findLast'', ''findLastIndex'', ''lastIndexOf'', ''pop'', ''push'', ''reverse'', ''shift'',
      ''unshift'', ''slice'', ''sort'', ''splice'', ''includes'', ''indexOf'', ''join'', ''keys'',
      ''entries'', ''values'', ''forEach'', ''filter'', ''flat'', ''flatMap'', ''map'', ''every'',
      ''some'', ''reduce'', ''reduceRight'', ''toReversed'', ''toSorted'', ''toSpliced'', ''with'',
      ''toLocaleString'', ''toString'']"

definition native_function :: "string \<Rightarrow> string" where
  "native_function name = ''function '' @ name @ ''() { [native code] }''"

fun inherited :: "json \<Rightarrow> string \<Rightarrow> string option" where
  "inherited (JObj kvs) name =
     (if name = ''__proto__'' then Some ''[object Object]''
      else if name = ''constructor'' then Some (native_function ''Object'')
      else if name \<in> set object_prototype then Some (native_function name)
      else None)"
| "inherited (JArr xs) name =
     (if name = ''__proto__'' then Some []
      else if name = ''constructor'' then Some (native_function ''Array'')
      else if name \<in> set array_prototype \<or> name \<in> set object_prototype
      then Some (native_function name)
      else None)"
| "inherited v name = None"

text \<open>\<open>{...x}\<close>: the own enumerable properties of \<open>x\<close>.\<close>

fun spread :: "json \<Rightarrow> (string \<times> json) list" where
  "spread (JObj kvs) = kvs"
| "spread (JArr xs) = map (\<lambda>i. (show_nat i, xs ! i)) [0..<length xs]"
| "spread (JStr s) = map (\<lambda>i. (show_nat i, JStr [s ! i])) [0..<length s]"
| "spread v = []"

text \<open>Writing a property of an object literal: an existing key keeps its place.\<close>

fun set_prop :: "(string \<times> json) list \<Rightarrow> string \<Rightarrow> json \<Rightarrow> (string \<times> json) list" where
  "set_prop [] k v = [(k, v)]"
| "set_prop ((k', v') # kvs) k v =
     (if k' = k then (k, v) # kvs else (k', v') # set_prop kvs k v)"

section \<open>Transport sockets\<close>

text \<open>
  The sockets are objects of the \<open>ws\<close> library. A socket handed to the server by the
  \<open>connection\<close> event is open, so the connecting state does not occur here. The model
  keeps what the server can observe or cause: the ready state, the frames accepted by
  \<open>send\<close>, the arguments of the \<open>close\<close> call that started the closing handshake, the
  number of pings, and whether \<open>send\<close> raises (a condition of the environment).
\<close>

datatype readyState = OPEN | CLOSING | CLOSED

record socket =
  readyState :: readyState
  sent :: "json list"
  closeArgs :: "(nat \<times> string) option"
  pings :: nat
  sendThrows :: bool

definition new_socket :: socket where
  "new_socket = \<lparr>readyState = OPEN, sent = [], closeArgs = None, pings = 0, sendThrows = False\<rparr>"

definition ws_close :: "socket \<Rightarrow> nat \<Rightarrow> string \<Rightarrow> socket" where
  "ws_close sk code reason =
     (if readyState sk = OPEN then sk\<lparr>readyState := CLOSING, closeArgs := Some (code, reason)\<rparr>
      else sk)"

definition ws_send :: "socket \<Rightarrow> json \<Rightarrow> error + socket" where
  "ws_send sk data = (if sendThrows sk then Inl SendError else Inr (sk\<lparr>sent := sent sk @ [data]\<rparr>))"

definition ws_ping :: "socket \<Rightarrow> socket" where
  "ws_ping sk = sk\<lparr>pings := pings sk + 1\<rparr>"

section \<open>The storage collaborator\<close>

text \<open>
  The handler is constructed with a database instance. What matters to it is whether the
  instance has a \<open>subscribe\<close> method and what that method returns:
  \<^item> \<open>PlainDB\<close>: an instance without \<open>subscribe\<close>;
  \<^item> \<open>FirebaseDB isFirestore\<close>: \<open>subscribe\<close> returns a function, the listener's
    cancellation with Firestore and the empty function \<open>() => {}\<close> without;
  \<^item> \<open>DatabaseAdapter fb\<close>: \<open>subscribe\<close> returns the object
    \<open>{ subscriptionId, unsubscribe }\<close>; \<open>fb\<close> is the Firebase instance of the adapter,
    when it has one, given by its \<open>isFirestore\<close> flag.
  The change feeds opened at the backend are numbered in the order of their creation;
  \<open>feeds\<close> holds the table of each one and \<open>cancelled\<close> logs every cancellation.

  \<open>FirebaseDB.subscribe\<close> with Firestore enumerates the filters with
  \<open>Object.entries\<close>, which raises for \<open>null\<close>; a missing \<open>filters\<close> takes the default
  \<open>{}\<close>. \<open>DatabaseAdapter.subscribe\<close> first renders the table in a template literal.
  The Firestore library itself (\<open>collection\<close>, \<open>where\<close>, \<open>onSnapshot\<close>) is taken to
  accept its arguments.
\<close>

datatype dbInstance = PlainDB | FirebaseDB bool | DatabaseAdapter "bool option"

datatype handle = CancelFunction "nat option" | SubscriptionObject "nat option"

datatype dbCall =
    PostData json json
  | GetDataByFilters json json json
  | UpdateData json json json json
  | DeleteData json json json

definition firebase_subscribe ::
    "bool \<Rightarrow> json list \<Rightarrow> json \<Rightarrow> json \<Rightarrow> error + (nat option \<times> json list)" where
  "firebase_subscribe isFirestore fs tableName filters =
     (if \<not> isFirestore then Inr (None, fs)
      else if filters = JNull then Inl (TypeError ''Cannot convert undefined or null to object'')
      else Inr (Some (length fs), fs @ [tableName]))"

text \<open>
  \<open>db.subscribe(table, callback, filters)\<close>: \<open>None\<close> when the instance has no such
  method, else the error raised or the value returned with the feeds after the call.
\<close>

fun db_subscribe ::
    "dbInstance \<Rightarrow> json list \<Rightarrow> json \<Rightarrow> json \<Rightarrow> (error + (handle \<times> json list)) option" where
  "db_subscribe PlainDB fs tableName filters = None"
| "db_subscribe (FirebaseDB isFirestore) fs tableName filters =
     (case firebase_subscribe isFirestore fs tableName filters of
        Inl e \<Rightarrow> Some (Inl e)
      | Inr (n, fs') \<Rightarrow> Some (Inr (CancelFunction n, fs')))"
| "db_subscribe (DatabaseAdapter None) fs tableName filters =
     Some (Inr (SubscriptionObject None, fs))"
| "db_subscribe (DatabaseAdapter (Some isFirestore)) fs tableName filters =
     (case js_String tableName of
        Inl e \<Rightarrow> Some (Inl e)
      | Inr t \<Rightarrow>
          (case firebase_subscribe isFirestore fs tableName filters of
             Inl e \<Rightarrow> Some (Inl e)
           | Inr (n, fs') \<Rightarrow> Some (Inr (SubscriptionObject n, fs'))))"

text \<open>
  The call \<open>unsubscribe()\<close> on a stored handle: a function runs, anything else raises a
  \<open>TypeError\<close>.
\<close>

fun call_handle :: "handle \<Rightarrow> nat list \<Rightarrow> error + nat list" where
  "call_handle (CancelFunction None) cs = Inr cs"
| "call_handle (CancelFunction (Some n)) cs = Inr (cs @ [n])"
| "call_handle (SubscriptionObject n) cs = Inl (TypeError ''unsubscribe is not a function'')"

section \<open>The state of WebSocketHandler\<close>

text \<open>
  The configuration after the constructor has merged the defaults and, with
  authentication enabled and no token given, has generated one: \<open>authToken\<close> is a
  string whenever it is compared.
\<close>

record config =
  enableAuthentication :: bool
  authToken :: string
  dbTableName :: string
  requiredFields :: "string list"
  enableHeartbeat :: bool
  heartbeatInterval :: int
  maxConnections :: int
  enableDataValidation :: bool
  enableDatabaseSync :: bool
  enableRoomBroadcast :: bool

record clientData =
  clientId :: string
  ip :: string
  userAgent :: string
  connectedAt :: int
  lastHeartbeat :: int
  isAuthenticated :: bool
  dataReceived :: nat
  lastDataTime :: "int option"

text \<open>
  A room: \<open>room_clients\<close> is the \<open>Set\<close> of member identities in insertion order;
  \<open>table\<close> and \<open>filters\<close> are \<open>undefined\<close> for a room made by \<open>join_room\<close>.
\<close>

record room =
  room_clients :: "string list"
  table :: json
  filters :: json

text \<open>
  Sockets are referred to by number. \<open>clients\<close> lists the keys of the \<open>clients\<close> map in
  insertion order; the value of key \<open>ws\<close> is the object \<open>clientDatas ws\<close>, the same
  object that the listeners registered on \<open>ws\<close> have captured. \<open>listeners\<close> is the set
  of sockets on which \<open>_setupClientEventHandlers\<close> has run. The keys of \<open>rooms\<close> are
  compared as a \<open>Map\<close> compares them, so a key that is an object or an array is equal
  to no key of a later message; the rooms made under such keys are in \<open>orphanRooms\<close>.
  \<open>heartbeatTimers\<close> are the running interval timers, \<open>authTimers\<close> the pending
  one-second timers of failed authentications, \<open>dbCalls\<close> the calls issued to the
  database, \<open>deferredCalls\<close> the calls that suspended handlers issue when they resume.
  Logging is modelled where it can raise, the notifications to the renderer are not, nor are the
  \<open>timestamp\<close> field of the frames and the \<open>createdAt\<close> field of a room, nor the
  start and the stop of the server.
\<close>

record handler =
  config :: config
  db :: dbInstance
  clients :: "nat list"
  clientDatas :: "nat \<Rightarrow> clientData"
  listeners :: "nat set"
  rooms :: "json \<rightharpoonup> room"
  orphanRooms :: "room list"
  dbSubscriptions :: "string \<rightharpoonup> handle"
  connectionCount :: int
  sockets :: "nat \<Rightarrow> socket"
  nextSocket :: nat
  heartbeatTimers :: "nat set"
  authTimers :: "nat list"
  dbCalls :: "dbCall list"
  deferredCalls :: "dbCall list"
  feeds :: "json list"
  cancelled :: "nat list"

definition blank_clientData :: clientData where
  "blank_clientData = \<lparr>clientId = [], ip = [], userAgent = [], connectedAt = 0, lastHeartbeat = 0,
     isAuthenticated = False, dataReceived = 0, lastDataTime = None\<rparr>"

definition closed_socket :: socket where
  "closed_socket = \<lparr>readyState = CLOSED, sent = [], closeArgs = None, pings = 0, sendThrows = False\<rparr>"

text \<open>The constructor: no client, no room, no subscription.\<close>

definition initial :: "config \<Rightarrow> dbInstance \<Rightarrow> handler" where
  "initial cfg dbInstance =
     \<lparr>config = cfg, db = dbInstance, clients = [], clientDatas = (\<lambda>ws. blank_clientData),
      listeners = {}, rooms = Map.empty, orphanRooms = [], dbSubscriptions = Map.empty,
      connectionCount = 0, sockets = (\<lambda>ws. closed_socket), nextSocket = 0,
      heartbeatTimers = {}, authTimers = [], dbCalls = [], deferredCalls = [], feeds = [],
      cancelled = []\<rparr>"

definition frame :: "string \<Rightarrow> (string \<times> json) list \<Rightarrow> json" where
  "frame ty props = JObj ((''type'', JStr ty) # props)"

definition is_reference :: "json \<Rightarrow> bool" where
  "is_reference v = (case v of JArr xs \<Rightarrow> True | JObj kvs \<Rightarrow> True | _ \<Rightarrow> False)"

definition rooms_get :: "handler \<Rightarrow> json \<Rightarrow> room option" where
  "rooms_get s roomId = (if is_reference roomId then None else rooms s roomId)"

definition set_add :: "'a list \<Rightarrow> 'a \<Rightarrow> 'a list" where
  "set_add xs x = (if x \<in> set xs then xs else xs @ [x])"

definition set_delete :: "'a list \<Rightarrow> 'a \<Rightarrow> 'a list" where
  "set_delete xs x = removeAll x xs"

section \<open>Sending\<close>

text \<open>\<open>_sendToClient\<close>: only to an open socket; an exception of \<open>send\<close> is caught.\<close>

definition sendToClient :: "handler \<Rightarrow> nat \<Rightarrow> json \<Rightarrow> handler" where
  "sendToClient s ws message =
     (if readyState (sockets s ws) = OPEN then
        (case ws_send (sockets s ws) message of
           Inl e \<Rightarrow> s
         | Inr sk \<Rightarrow> s\<lparr>sockets := (sockets s)(ws := sk)\<rparr>)
      else s)"

text \<open>
  \<open>broadcastToAll\<close>: every key of the \<open>clients\<close> map that is open is sent the message;
  the count is of the sends that did not raise.
\<close>

definition send_counted :: "json \<Rightarrow> nat \<Rightarrow> nat \<times> handler \<Rightarrow> nat \<times> handler" where
  "send_counted message ws acc =
     (case acc of (sentCount, s) \<Rightarrow>
        if readyState (sockets s ws) = OPEN then
          (case ws_send (sockets s ws) message of
             Inl e \<Rightarrow> (sentCount, s)
           | Inr sk \<Rightarrow> (sentCount + 1, s\<lparr>sockets := (sockets s)(ws := sk)\<rparr>))
        else (sentCount, s))"

definition broadcastToAll :: "handler \<Rightarrow> json \<Rightarrow> nat \<times> handler" where
  "broadcastToAll s message = fold (send_counted message) (clients s) (0, s)"

text \<open>
  \<open>broadcastToRoom\<close>: each member identity is resolved to the first key of the
  \<open>clients\<close> map whose client data has that identity; an identity that resolves to no
  socket, or to one that is not open, is skipped.
\<close>

definition find_ws :: "handler \<Rightarrow> string \<Rightarrow> nat option" where
  "find_ws s cid = find (\<lambda>ws. clientId (clientDatas s ws) = cid) (clients s)"

definition deliver :: "json \<Rightarrow> string \<Rightarrow> nat \<times> handler \<Rightarrow> nat \<times> handler" where
  "deliver message cid acc =
     (case find_ws (snd acc) cid of
        None \<Rightarrow> acc
      | Some ws \<Rightarrow> send_counted message ws acc)"

definition broadcastToRoom :: "handler \<Rightarrow> json \<Rightarrow> json \<Rightarrow> nat \<times> handler" where
  "broadcastToRoom s roomId message =
     (if \<not> enableRoomBroadcast (config s) then (0, s)
      else case rooms_get s roomId of
        None \<Rightarrow> (0, s)
      | Some r \<Rightarrow> fold (deliver message) (room_clients r) (0, s))"

section \<open>Connections\<close>

definition setupClientEventHandlers :: "handler \<Rightarrow> nat \<Rightarrow> handler" where
  "setupClientEventHandlers s ws = s\<lparr>listeners := insert ws (listeners s)\<rparr>"

definition startClientHeartbeat :: "handler \<Rightarrow> nat \<Rightarrow> handler" where
  "startClientHeartbeat s ws = s\<lparr>heartbeatTimers := insert ws (heartbeatTimers s)\<rparr>"

text \<open>
  \<open>_handleNewConnection\<close>. The identity made by \<open>_generateClientId\<close> (time and a random
  number) and the time are inputs; \<open>uaHeader\<close> is the \<open>user-agent\<close> header, if any.
\<close>

definition handleNewConnection ::
    "handler \<Rightarrow> nat \<Rightarrow> string \<Rightarrow> string option \<Rightarrow> string \<Rightarrow> int \<Rightarrow> handler" where
  "handleNewConnection s ws clientIP uaHeader newId now =
     (if connectionCount s \<ge> maxConnections (config s) then
        s\<lparr>sockets := (sockets s)(ws := ws_close (sockets s ws) 1013 ''Server overloaded'')\<rparr>
      else
        let cd = \<lparr>clientId = newId, ip = clientIP,
                  userAgent = (case uaHeader of None \<Rightarrow> ''Unknown''
                               | Some u \<Rightarrow> if u = [] then ''Unknown'' else u),
                  connectedAt = now, lastHeartbeat = now,
                  isAuthenticated = (\<not> enableAuthentication (config s)),
                  dataReceived = 0, lastDataTime = None\<rparr>;
            s1 = s\<lparr>clients := set_add (clients s) ws,
                   clientDatas := (clientDatas s)(ws := cd),
                   connectionCount := connectionCount s + 1\<rparr>;
            s2 = setupClientEventHandlers s1 ws;
            s3 = (if enableHeartbeat (config s2) then startClientHeartbeat s2 ws else s2)
        in sendToClient s3 ws
             (frame ''welcome'' [(''clientId'', JStr newId),
                                 (''authRequired'', JBool (enableAuthentication (config s3)))]))"

text \<open>\<open>_handleClientDisconnection\<close>, the listener of the socket's \<open>close\<close> event.\<close>

definition handleClientDisconnection :: "handler \<Rightarrow> nat \<Rightarrow> handler" where
  "handleClientDisconnection s ws =
     s\<lparr>clients := removeAll ws (clients s), connectionCount := connectionCount s - 1\<rparr>"

text \<open>The callback of the interval timer that \<open>_startClientHeartbeat\<close> sets.\<close>

definition heartbeatTick :: "handler \<Rightarrow> nat \<Rightarrow> int \<Rightarrow> handler" where
  "heartbeatTick s ws now =
     (if readyState (sockets s ws) = OPEN then
        (if now - lastHeartbeat (clientDatas s ws) > heartbeatInterval (config s) * 2 then
           s\<lparr>sockets := (sockets s)(ws := ws_close (sockets s ws) 1000 ''Heartbeat timeout''),
             heartbeatTimers := heartbeatTimers s - {ws}\<rparr>
         else s\<lparr>sockets := (sockets s)(ws := ws_ping (sockets s ws))\<rparr>)
      else s\<lparr>heartbeatTimers := heartbeatTimers s - {ws}\<rparr>)"

text \<open>The listener of \<open>pong\<close>.\<close>

definition handlePong :: "handler \<Rightarrow> nat \<Rightarrow> int \<Rightarrow> handler" where
  "handlePong s ws now =
     s\<lparr>clientDatas := (clientDatas s)(ws := (clientDatas s ws)\<lparr>lastHeartbeat := now\<rparr>)\<rparr>"

text \<open>\<open>getStatus\<close>: the part of the result that depends on the registry.\<close>

record clientInfo =
  info_id :: string
  info_ip :: string
  info_connectedAt :: int
  info_isAuthenticated :: bool
  info_dataReceived :: nat
  info_lastDataTime :: "int option"

record status =
  status_connectionCount :: int
  status_maxConnections :: int
  status_authEnabled :: bool
  status_clients :: "clientInfo list"

definition getStatus :: "handler \<Rightarrow> status" where
  "getStatus s =
     \<lparr>status_connectionCount = connectionCount s,
      status_maxConnections = maxConnections (config s),
      status_authEnabled = enableAuthentication (config s),
      status_clients =
        map (\<lambda>ws. let client = clientDatas s ws in
               \<lparr>info_id = clientId client, info_ip = ip client,
                info_connectedAt = connectedAt client,
                info_isAuthenticated = isAuthenticated client,
                info_dataReceived = dataReceived client,
                info_lastDataTime = lastDataTime client\<rparr>) (clients s)\<rparr>"

section \<open>Message handlers\<close>

definition authRequiredFrame :: json where
  "authRequiredFrame = frame ''error'' [(''message'', JStr ''Authentication required'')]"

text \<open>\<open>_checkAuthAndSend\<close>: the answer and the state after the error frame, if any.\<close>

definition checkAuthAndSend :: "handler \<Rightarrow> nat \<Rightarrow> bool \<times> handler" where
  "checkAuthAndSend s ws =
     (if enableAuthentication (config s) \<and> \<not> isAuthenticated (clientDatas s ws) then
        (False, sendToClient s ws authRequiredFrame)
      else (True, s))"

text \<open>
  \<open>_handleAuthentication\<close>. A failed check answers and sets a timer of one second; its
  callback is \<open>authTimerFired\<close>.
\<close>

definition handleAuthentication :: "handler \<Rightarrow> nat \<Rightarrow> json \<Rightarrow> handler" where
  "handleAuthentication s ws message =
     (if \<not> enableAuthentication (config s) then
        sendToClient s ws
          (frame ''auth_response'' [(''success'', JBool True),
                                    (''message'', JStr ''Authentication not required'')])
      else if get_prop message ''token'' = JStr (authToken (config s)) then
        sendToClient
          (s\<lparr>clientDatas := (clientDatas s)(ws := (clientDatas s ws)\<lparr>isAuthenticated := True\<rparr>)\<rparr>)
          ws
          (frame ''auth_response'' [(''success'', JBool True),
                                    (''message'', JStr ''Authentication successful'')])
      else
        (sendToClient s ws
           (frame ''auth_response'' [(''success'', JBool False),
                                     (''message'', JStr ''Invalid authentication token'')]))
        \<lparr>authTimers := authTimers s @ [ws]\<rparr>)"

definition authTimerFired :: "handler \<Rightarrow> nat \<Rightarrow> handler" where
  "authTimerFired s ws =
     (if readyState (sockets s ws) = OPEN then
        s\<lparr>sockets := (sockets s)(ws := ws_close (sockets s ws) 1008 ''Authentication failed'')\<rparr>
      else s)"

text \<open>
  \<open>_validateSensorData\<close>. \<open>read_member data field\<close> is what the three tests of
  \<open>data[field]\<close> see: \<open>None\<close> when it is \<open>undefined\<close> or \<open>null\<close>, else its rendering
  under \<open>String\<close> or the error that the rendering raises. An own property hides the
  inherited member of its name. The loop over the required fields stops at the first
  field that is refused or raises.
\<close>

definition read_member :: "json \<Rightarrow> string \<Rightarrow> (error + string) option" where
  "read_member data field =
     (if has_own data field then
        (if get_prop data field = JUndefined \<or> get_prop data field = JNull then None
         else Some (js_String (get_prop data field)))
      else map_option Inr (inherited data field))"

fun check_required :: "json \<Rightarrow> string list \<Rightarrow> error + bool" where
  "check_required data [] = Inr True"
| "check_required data (field # rest) =
     (case read_member data field of
        None \<Rightarrow> Inr False
      | Some (Inl e) \<Rightarrow> Inl e
      | Some (Inr r) \<Rightarrow> if js_trim r = [] then Inr False else check_required data rest)"

definition validateSensorData :: "config \<Rightarrow> json \<Rightarrow> error + bool" where
  "validateSensorData cfg data =
     (if \<not> truthy data \<or> \<not> typeof_object data then Inr False
      else check_required data (requiredFields cfg))"

text \<open>
  \<open>_saveToDatabase\<close> up to its first suspension: the call of \<open>postData\<close> is issued. The
  encryption of fields is left out; the answer to the client is sent when the call
  completes, which is not part of this model.
\<close>

definition saveToDatabase :: "handler \<Rightarrow> json \<Rightarrow> handler" where
  "saveToDatabase s data = s\<lparr>dbCalls := dbCalls s @ [PostData (JStr (dbTableName (config s))) data]\<rparr>"

definition validationFailedFrame :: json where
  "validationFailedFrame =
     frame ''data_response'' [(''success'', JBool False), (''message'', JStr ''Data validation failed'')]"

definition processingErrorFrame :: json where
  "processingErrorFrame =
     frame ''data_response'' [(''success'', JBool False), (''message'', JStr ''Error processing data'')]"

text \<open>
  \<open>_handleSensorData\<close>. The validation runs only when it is enabled; an exception that
  it raises is caught by the handler, which answers \<open>Error processing data\<close>. In the
  stored object \<open>received_at\<close> holds the time of receipt as the number of milliseconds,
  in place of its ISO text.
\<close>

definition handleSensorData :: "handler \<Rightarrow> nat \<Rightarrow> json \<Rightarrow> int \<Rightarrow> handler" where
  "handleSensorData s ws message now =
     (if enableAuthentication (config s) \<and> \<not> isAuthenticated (clientDatas s ws) then
        sendToClient s ws authRequiredFrame
      else
        let sensorData = js_or (get_prop message ''data'') (js_or (get_prop message ''payload'') message)
        in case (if enableDataValidation (config s) then validateSensorData (config s) sensorData
                 else Inr True) of
             Inl e \<Rightarrow> sendToClient s ws processingErrorFrame
           | Inr valid \<Rightarrow>
               if \<not> valid then sendToClient s ws validationFailedFrame
               else
                 saveToDatabase s
                   (JObj (set_prop (set_prop (set_prop (spread sensorData)
                      ''client_id'' (JStr (clientId (clientDatas s ws))))
                      ''client_ip'' (JStr (ip (clientDatas s ws))))
                      ''received_at'' (JNum (show_int now)))))"

definition handleHeartbeat :: "handler \<Rightarrow> nat \<Rightarrow> int \<Rightarrow> handler" where
  "handleHeartbeat s ws now =
     sendToClient
       (s\<lparr>clientDatas := (clientDatas s)(ws := (clientDatas s ws)\<lparr>lastHeartbeat := now\<rparr>)\<rparr>)
       ws (frame ''heartbeat_response'' [])"

text \<open>
  The four database operations up to the call that they issue to the database: the gate,
  the check of the arguments, and the call. The answer and the \<open>db_change\<close> broadcast
  follow when the call completes, which is not part of this model.

  \<open>_handleDatabaseDelete\<close> suspends before its call: in
  \<open>await this.db.deleteData ? ... : ...\<close> the \<open>await\<close> applies to the method reference,
  so the handler returns to the router and the call is issued when the handler resumes
  (the event \<open>Microtask\<close> below). The log keeps \<open>whereClause\<close> and \<open>whereParams\<close> as they
  were received: the defaults filled in depend on which of its two delete calls the
  database offers.
\<close>

definition failureFrame :: "string \<Rightarrow> string \<Rightarrow> json" where
  "failureFrame ty msg = frame ty [(''success'', JBool False), (''error'', JStr msg)]"

definition handleDatabaseCreate :: "handler \<Rightarrow> nat \<Rightarrow> json \<Rightarrow> handler" where
  "handleDatabaseCreate s ws message =
     (case checkAuthAndSend s ws of
        (False, s') \<Rightarrow> s'
      | (True, s') \<Rightarrow>
          let src = js_or (get_prop message ''data'') message
          in if \<not> truthy (get_prop src ''table'') \<or> \<not> truthy (get_prop src ''data'') then
               sendToClient s' ws (failureFrame ''db_create_response'' ''Missing table or data'')
             else s'\<lparr>dbCalls := dbCalls s' @ [PostData (get_prop src ''table'') (get_prop src ''data'')]\<rparr>)"

definition handleDatabaseRead :: "handler \<Rightarrow> nat \<Rightarrow> json \<Rightarrow> handler" where
  "handleDatabaseRead s ws message =
     (case checkAuthAndSend s ws of
        (False, s') \<Rightarrow> s'
      | (True, s') \<Rightarrow>
          let src = js_or (get_prop message ''data'') message
          in if \<not> truthy (get_prop src ''table'') then
               sendToClient s' ws (failureFrame ''db_read_response'' ''Missing table name'')
             else s'\<lparr>dbCalls := dbCalls s' @
                    [GetDataByFilters (get_prop src ''table'')
                       (js_or (get_prop src ''filters'') (JObj []))
                       (js_or (get_prop src ''options'') (JObj []))]\<rparr>)"

definition handleDatabaseUpdate :: "handler \<Rightarrow> nat \<Rightarrow> json \<Rightarrow> handler" where
  "handleDatabaseUpdate s ws message =
     (case checkAuthAndSend s ws of
        (False, s') \<Rightarrow> s'
      | (True, s') \<Rightarrow>
          let src = js_or (get_prop message ''data'') message
          in if \<not> truthy (get_prop src ''table'') \<or> \<not> truthy (get_prop src ''data'') then
               sendToClient s' ws (failureFrame ''db_update_response'' ''Missing table or data'')
             else s'\<lparr>dbCalls := dbCalls s' @
                    [UpdateData (get_prop src ''table'') (get_prop src ''data'')
                       (js_or (get_prop src ''whereClause'') (JStr []))
                       (js_or (get_prop src ''whereParams'') (JArr []))]\<rparr>)"

definition handleDatabaseDelete :: "handler \<Rightarrow> nat \<Rightarrow> json \<Rightarrow> handler" where
  "handleDatabaseDelete s ws message =
     (case checkAuthAndSend s ws of
        (False, s') \<Rightarrow> s'
      | (True, s') \<Rightarrow>
          let src = js_or (get_prop message ''data'') message
          in if \<not> truthy (get_prop src ''table'') then
               sendToClient s' ws (failureFrame ''db_delete_response'' ''Missing table name'')
             else s'\<lparr>deferredCalls := deferredCalls s' @
                    [DeleteData (get_prop src ''table'')
                       (get_prop src ''whereClause'') (get_prop src ''whereParams'')]\<rparr>)"

definition resumeHandler :: "handler \<Rightarrow> handler" where
  "resumeHandler s =
     (case deferredCalls s of
        [] \<Rightarrow> s
      | c # cs \<Rightarrow> s\<lparr>deferredCalls := cs, dbCalls := dbCalls s @ [c]\<rparr>)"

text \<open>
  \<open>_handleDatabaseSubscribe\<close>. The room of a table is named by the template literal
  \<open>db_${table}\<close>, which raises for a table that \<open>String\<close> cannot render. Whatever is
  raised after the gate is caught by the handler and answered with the error's message:
  by the template literal before the room is touched, by \<open>db.subscribe\<close> after the
  client has been added to the room.
\<close>

definition db_room :: "json \<Rightarrow> error + string" where
  "db_room tbl = (case js_String tbl of Inl e \<Rightarrow> Inl e | Inr t \<Rightarrow> Inr (''db_'' @ t))"

definition subscribedFrame :: "json \<Rightarrow> string \<Rightarrow> json" where
  "subscribedFrame tbl roomId =
     frame ''db_subscribe_response''
       [(''success'', JBool True), (''table'', tbl), (''roomId'', JStr roomId)]"

definition handleDatabaseSubscribe :: "handler \<Rightarrow> nat \<Rightarrow> json \<Rightarrow> handler" where
  "handleDatabaseSubscribe s ws message =
     (case checkAuthAndSend s ws of
        (False, s') \<Rightarrow> s'
      | (True, s') \<Rightarrow>
          let src = js_or (get_prop message ''data'') message;
              tbl = get_prop src ''table''
          in if \<not> truthy tbl then
               sendToClient s' ws (failureFrame ''db_subscribe_response'' ''Missing table name'')
             else
               (case db_room tbl of
                  Inl e \<Rightarrow>
                    sendToClient s' ws (failureFrame ''db_subscribe_response'' (message_of e))
                | Inr roomId \<Rightarrow>
                    let r = (case rooms s' (JStr roomId) of
                               None \<Rightarrow> \<lparr>room_clients = [], table = tbl,
                                         filters = js_or (get_prop src ''filters'') (JObj [])\<rparr>
                             | Some r0 \<Rightarrow> r0);
                        s1 = s'\<lparr>rooms := (rooms s')(JStr roomId \<mapsto>
                                 r\<lparr>room_clients := set_add (room_clients r) (clientId (clientDatas s' ws))\<rparr>)\<rparr>
                    in if dbSubscriptions s1 roomId = None then
                         (case db_subscribe (db s1) (feeds s1) tbl (get_prop src ''filters'') of
                            None \<Rightarrow> sendToClient s1 ws (subscribedFrame tbl roomId)
                          | Some (Inl e) \<Rightarrow>
                              sendToClient s1 ws
                                (failureFrame ''db_subscribe_response'' (message_of e))
                          | Some (Inr (h, fs)) \<Rightarrow>
                              sendToClient
                                (s1\<lparr>feeds := fs,
                                    dbSubscriptions := (dbSubscriptions s1)(roomId \<mapsto> h)\<rparr>)
                                ws (subscribedFrame tbl roomId))
                       else sendToClient s1 ws (subscribedFrame tbl roomId)))"

text \<open>
  \<open>_handleDatabaseUnsubscribe\<close>. The template literal of the room and the call of the
  stored handle may raise; the handler catches nothing, and the state at that moment is
  returned with the error.
\<close>

definition unsubscribeResponse :: "json \<Rightarrow> json" where
  "unsubscribeResponse tbl = frame ''db_unsubscribe_response'' [(''success'', JBool True), (''table'', tbl)]"

definition handleDatabaseUnsubscribe :: "handler \<Rightarrow> nat \<Rightarrow> json \<Rightarrow> (error \<times> handler) + handler" where
  "handleDatabaseUnsubscribe s ws message =
     (let tbl = get_prop (js_or (get_prop message ''data'') message) ''table''
      in if \<not> truthy tbl then Inr s
         else
           case db_room tbl of
             Inl e \<Rightarrow> Inl (e, s)
           | Inr roomId \<Rightarrow>
              (case rooms s (JStr roomId) of
                None \<Rightarrow> Inr (sendToClient s ws (unsubscribeResponse tbl))
              | Some r \<Rightarrow>
                  let r' = r\<lparr>room_clients := set_delete (room_clients r) (clientId (clientDatas s ws))\<rparr>;
                      s1 = s\<lparr>rooms := (rooms s)(JStr roomId \<mapsto> r')\<rparr>
                  in if room_clients r' = [] then
                       (case dbSubscriptions s1 roomId of
                          None \<Rightarrow>
                            Inr (sendToClient (s1\<lparr>rooms := (rooms s1)(JStr roomId := None)\<rparr>) ws
                                   (unsubscribeResponse tbl))
                        | Some unsubscribe \<Rightarrow>
                            (case call_handle unsubscribe (cancelled s1) of
                               Inl e \<Rightarrow> Inl (e, s1)
                             | Inr cs \<Rightarrow>
                                 Inr (sendToClient
                                        (s1\<lparr>cancelled := cs,
                                            dbSubscriptions := (dbSubscriptions s1)(roomId := None),
                                            rooms := (rooms s1)(JStr roomId := None)\<rparr>)
                                        ws (unsubscribeResponse tbl))))
                     else Inr (sendToClient s1 ws (unsubscribeResponse tbl))))"

text \<open>
  \<open>_handleJoinRoom\<close> and \<open>_handleLeaveRoom\<close>: what they do to the rooms and what they
  answer. Their last statement logs the room through a template literal.
  \<open>joinRoomLog\<close> is the error that this raises at the end of \<open>_handleJoinRoom\<close>, after
  the join and the answer, for a room that \<open>String\<close> cannot render; the router adds it
  below. \<open>_handleLeaveRoom\<close> reaches its log only for a room that is a key of the map,
  which is a string, a number or a boolean, and these render.
\<close>

definition handleJoinRoom :: "handler \<Rightarrow> nat \<Rightarrow> json \<Rightarrow> handler" where
  "handleJoinRoom s ws message =
     (let roomId = get_prop (js_or (get_prop message ''data'') message) ''roomId''
      in if \<not> truthy roomId then s
         else
           let cid = clientId (clientDatas s ws);
               s1 = (if is_reference roomId then
                       s\<lparr>orphanRooms := orphanRooms s @
                            [\<lparr>room_clients = [cid], table = JUndefined, filters = JUndefined\<rparr>]\<rparr>
                     else
                       let r = (case rooms s roomId of
                                  None \<Rightarrow> \<lparr>room_clients = [], table = JUndefined, filters = JUndefined\<rparr>
                                | Some r0 \<Rightarrow> r0)
                       in s\<lparr>rooms := (rooms s)(roomId \<mapsto> r\<lparr>room_clients := set_add (room_clients r) cid\<rparr>)\<rparr>)
           in sendToClient s1 ws (frame ''room_joined'' [(''roomId'', roomId)]))"

definition joinRoomLog :: "json \<Rightarrow> error option" where
  "joinRoomLog message =
     (let roomId = get_prop (js_or (get_prop message ''data'') message) ''roomId''
      in if \<not> truthy roomId then None
         else case js_String roomId of Inl e \<Rightarrow> Some e | Inr t \<Rightarrow> None)"

definition handleLeaveRoom :: "handler \<Rightarrow> nat \<Rightarrow> json \<Rightarrow> handler" where
  "handleLeaveRoom s ws message =
     (let roomId = get_prop (js_or (get_prop message ''data'') message) ''roomId''
      in if \<not> truthy roomId then s
         else case rooms_get s roomId of
                None \<Rightarrow> s
              | Some r \<Rightarrow>
                  let r' = r\<lparr>room_clients := set_delete (room_clients r) (clientId (clientDatas s ws))\<rparr>;
                      s1 = (if room_clients r' = [] then s\<lparr>rooms := (rooms s)(roomId := None)\<rparr>
                            else s\<lparr>rooms := (rooms s)(roomId \<mapsto> r')\<rparr>)
                  in sendToClient s1 ws (frame ''room_left'' [(''roomId'', roomId)]))"

section \<open>The router\<close>

definition invalidJsonFrame :: json where
  "invalidJsonFrame = frame ''error'' [(''message'', JStr ''Invalid JSON format'')]"

text \<open>
  The \<open>switch\<close> on \<open>message.type\<close>; an exception of a handler comes back as \<open>Inl\<close>.
  The default branch renders the type in a template literal, for the log, before it
  answers.
\<close>

definition dispatch :: "handler \<Rightarrow> nat \<Rightarrow> json \<Rightarrow> int \<Rightarrow> (error \<times> handler) + handler" where
  "dispatch s ws message now =
     (let ty = get_prop message ''type'' in
      if ty = JStr ''auth'' then Inr (handleAuthentication s ws message)
      else if ty = JStr ''sensor_data'' then Inr (handleSensorData s ws message now)
      else if ty = JStr ''heartbeat'' then Inr (handleHeartbeat s ws now)
      else if ty = JStr ''ping'' then Inr (sendToClient s ws (frame ''pong'' []))
      else if ty = JStr ''db_create'' then Inr (handleDatabaseCreate s ws message)
      else if ty = JStr ''db_read'' then Inr (handleDatabaseRead s ws message)
      else if ty = JStr ''db_update'' then Inr (handleDatabaseUpdate s ws message)
      else if ty = JStr ''db_delete'' then Inr (handleDatabaseDelete s ws message)
      else if ty = JStr ''db_subscribe'' then Inr (handleDatabaseSubscribe s ws message)
      else if ty = JStr ''db_unsubscribe'' then handleDatabaseUnsubscribe s ws message
      else if ty = JStr ''join_room'' then
        (case joinRoomLog message of
           None \<Rightarrow> Inr (handleJoinRoom s ws message)
         | Some e \<Rightarrow> Inl (e, handleJoinRoom s ws message))
      else if ty = JStr ''leave_room'' then Inr (handleLeaveRoom s ws message)
      else case js_String ty of
             Inl e \<Rightarrow> Inl (e, s)
           | Inr t \<Rightarrow>
               Inr (sendToClient s ws
                      (frame ''error'' [(''message'', JStr (''Unknown message type: '' @ t))])))"

text \<open>
  \<open>_handleClientMessage\<close>. \<open>raw\<close> is the result of \<open>JSON.parse\<close>, \<open>None\<close> when it
  raises. Reading \<open>type\<close> of \<open>null\<close> raises too. Every exception ends in the same
  \<open>catch\<close>, which answers with an error frame.
\<close>

definition handleClientMessage :: "handler \<Rightarrow> nat \<Rightarrow> json option \<Rightarrow> int \<Rightarrow> handler" where
  "handleClientMessage s ws raw now =
     (case raw of
        None \<Rightarrow> sendToClient s ws invalidJsonFrame
      | Some message \<Rightarrow>
          let cd = clientDatas s ws;
              s1 = s\<lparr>clientDatas := (clientDatas s)
                     (ws := cd\<lparr>lastDataTime := Some now, dataReceived := dataReceived cd + 1\<rparr>)\<rparr>
          in if message = JNull \<or> message = JUndefined then sendToClient s1 ws invalidJsonFrame
             else (case dispatch s1 ws message now of
                     Inl (e, s2) \<Rightarrow> sendToClient s2 ws invalidJsonFrame
                   | Inr s2 \<Rightarrow> s2))"

section \<open>Events\<close>

text \<open>
  What the event loop delivers to the handler. The library gives every connection a new
  socket, delivers messages and pongs only to a socket that has listeners and is not
  closed, and emits \<open>close\<close> once, when the socket becomes closed. A timer runs its
  callback only while it is set. A change feed calls back until it is cancelled; its
  callback broadcasts to the room that was named when the feed was opened. \<open>Microtask\<close>
  resumes the handler that has been suspended longest.
\<close>

datatype event =
    Connection string "string option" string int
  | MessageEv nat "json option" int
  | PongEv nat int
  | CloseEv nat
  | HeartbeatTimer nat int
  | AuthTimer nat
  | FeedChange nat json
  | Microtask

definition feedCallback :: "handler \<Rightarrow> nat \<Rightarrow> json \<Rightarrow> handler" where
  "feedCallback s n changes =
     (case db_room (feeds s ! n) of
        Inl e \<Rightarrow> s
      | Inr roomId \<Rightarrow>
          snd (broadcastToRoom s (JStr roomId)
                 (frame ''db_realtime'' [(''table'', feeds s ! n), (''changes'', changes)])))"

fun step :: "event \<Rightarrow> handler \<Rightarrow> handler" where
  "step (Connection clientIP uaHeader newId now) s =
     (let ws = nextSocket s
      in handleNewConnection (s\<lparr>sockets := (sockets s)(ws := new_socket), nextSocket := Suc ws\<rparr>)
           ws clientIP uaHeader newId now)"
| "step (MessageEv ws raw now) s =
     (if ws \<in> listeners s \<and> readyState (sockets s ws) \<noteq> CLOSED
      then handleClientMessage s ws raw now else s)"
| "step (PongEv ws now) s =
     (if ws \<in> listeners s \<and> readyState (sockets s ws) \<noteq> CLOSED then handlePong s ws now else s)"
| "step (CloseEv ws) s =
     (if readyState (sockets s ws) = CLOSED then s
      else
        let s1 = s\<lparr>sockets := (sockets s)(ws := (sockets s ws)\<lparr>readyState := CLOSED\<rparr>)\<rparr>
        in if ws \<in> listeners s then handleClientDisconnection s1 ws else s1)"
| "step (HeartbeatTimer ws now) s =
     (if ws \<in> heartbeatTimers s then heartbeatTick s ws now else s)"
| "step (AuthTimer ws) s =
     (if ws \<in> set (authTimers s) then authTimerFired (s\<lparr>authTimers := remove1 ws (authTimers s)\<rparr>) ws
      else s)"
| "step (FeedChange n changes) s =
     (if n < length (feeds s) \<and> n \<notin> set (cancelled s) then feedCallback s n changes else s)"
| "step Microtask s = resumeHandler s"

definition run :: "event list \<Rightarrow> handler \<Rightarrow> handler" where
  "run evs s = fold step evs s"

section \<open>Relations between states and invariants\<close>

text \<open>
  \<open>same_registry s s'\<close>: from \<open>s\<close> to \<open>s'\<close> the registry, the listeners, the
  allocation of sockets, the identity of every client and the ready state of every socket
  are unchanged, and timers of failed authentications are only added.
\<close>

definition same_registry :: "handler \<Rightarrow> handler \<Rightarrow> bool" where
  "same_registry s s' \<longleftrightarrow>
     config s' = config s \<and> db s' = db s \<and> clients s' = clients s \<and>
     listeners s' = listeners s \<and> nextSocket s' = nextSocket s \<and>
     connectionCount s' = connectionCount s \<and> heartbeatTimers s' = heartbeatTimers s \<and>
     (\<forall>w. clientId (clientDatas s' w) = clientId (clientDatas s w)) \<and>
     (\<forall>w. readyState (sockets s' w) = readyState (sockets s w)) \<and>
     (\<forall>w. closeArgs (sockets s' w) = closeArgs (sockets s w)) \<and>
     (\<forall>w. sendThrows (sockets s' w) = sendThrows (sockets s w)) \<and>
     (\<exists>ts. authTimers s' = authTimers s @ ts)"

text \<open>\<open>only_sent s s'\<close>: nothing differs but the frames sent and the counters of the sockets.\<close>

definition only_sent :: "handler \<Rightarrow> handler \<Rightarrow> bool" where
  "only_sent s s' \<longleftrightarrow>
     same_registry s s' \<and> clientDatas s' = clientDatas s \<and> rooms s' = rooms s \<and>
     orphanRooms s' = orphanRooms s \<and> dbSubscriptions s' = dbSubscriptions s \<and>
     authTimers s' = authTimers s \<and> dbCalls s' = dbCalls s \<and>
     deferredCalls s' = deferredCalls s \<and> feeds s' = feeds s \<and> cancelled s' = cancelled s"

text \<open>
  \<open>members_from ws s s'\<close>: every member of a room of \<open>s'\<close> was a member of that room
  in \<open>s\<close> or is the identity of the client of \<open>ws\<close>.
\<close>

definition members_from :: "nat \<Rightarrow> handler \<Rightarrow> handler \<Rightarrow> bool" where
  "members_from ws s s' \<longleftrightarrow>
     (\<forall>k r' cid. rooms s' k = Some r' \<longrightarrow> cid \<in> set (room_clients r') \<longrightarrow>
        cid = clientId (clientDatas s ws) \<or> (\<exists>r. rooms s k = Some r \<and> cid \<in> set (room_clients r))) \<and>
     (\<forall>r' \<in> set (orphanRooms s'). r' \<in> set (orphanRooms s) \<or> room_clients r' = [clientId (clientDatas s ws)])"

text \<open>
  The invariants of the states that the events reach. Sockets are allocated in order;
  a socket with listeners is a key of the registry until it is closed; a member of a room
  is the identity of a client that was accepted; the member list of a room is a set.
\<close>

definition allocated :: "handler \<Rightarrow> bool" where
  "allocated s \<longleftrightarrow>
     (\<forall>w \<in> listeners s. w < nextSocket s) \<and> (\<forall>w \<in> set (clients s). w < nextSocket s)"

definition registered_while_open :: "handler \<Rightarrow> bool" where
  "registered_while_open s \<longleftrightarrow>
     (\<forall>w \<in> listeners s. readyState (sockets s w) \<noteq> CLOSED \<longrightarrow> w \<in> set (clients s))"

definition accepted_id :: "handler \<Rightarrow> string \<Rightarrow> bool" where
  "accepted_id s cid \<longleftrightarrow> (\<exists>w \<in> listeners s. clientId (clientDatas s w) = cid)"

definition members_accepted :: "handler \<Rightarrow> bool" where
  "members_accepted s \<longleftrightarrow>
     (\<forall>k r. rooms s k = Some r \<longrightarrow> (\<forall>cid \<in> set (room_clients r). accepted_id s cid)) \<and>
     (\<forall>r \<in> set (orphanRooms s). \<forall>cid \<in> set (room_clients r). accepted_id s cid)"

definition none_closed :: "handler \<Rightarrow> bool" where
  "none_closed s \<longleftrightarrow> (\<forall>w \<in> listeners s. readyState (sockets s w) \<noteq> CLOSED)"

definition is_close :: "event \<Rightarrow> bool" where
  "is_close e = (case e of CloseEv ws \<Rightarrow> True | _ \<Rightarrow> False)"

definition rooms_distinct :: "handler \<Rightarrow> bool" where
  "rooms_distinct s \<longleftrightarrow> (\<forall>roomId r. rooms s roomId = Some r \<longrightarrow> distinct (room_clients r))"

section \<open>Notions of the claims\<close>

text \<open>The number of members of a room, zero for a room that is not in the registry.\<close>

definition member_count :: "handler \<Rightarrow> json \<Rightarrow> nat" where
  "member_count s roomId = (case rooms s roomId of None \<Rightarrow> 0 | Some r \<Rightarrow> length (room_clients r))"

text \<open>The members of a room, none for a room that is not in the registry.\<close>

definition members :: "handler \<Rightarrow> json \<Rightarrow> string set" where
  "members s roomId = (case rooms s roomId of None \<Rightarrow> {} | Some r \<Rightarrow> set (room_clients r))"

definition rooms_nonempty :: "handler \<Rightarrow> bool" where
  "rooms_nonempty s \<longleftrightarrow> (\<forall>roomId r. rooms s roomId = Some r \<longrightarrow> room_clients r \<noteq> [])"

text \<open>The room that a \<open>join_room\<close> or \<open>leave_room\<close> message names.\<close>

definition room_of :: "json \<Rightarrow> json" where
  "room_of message = get_prop (js_or (get_prop message ''data'') message) ''roomId''"

text \<open>Sequences of \<open>join_room\<close> and \<open>leave_room\<close> messages, each with the socket it came from.\<close>

datatype membership_op = Join nat json | Leave nat json

fun membership :: "membership_op \<Rightarrow> handler \<Rightarrow> handler" where
  "membership (Join ws message) s = handleJoinRoom s ws message"
| "membership (Leave ws message) s = handleLeaveRoom s ws message"








text \<open>
  A member identity is live when it resolves to an open socket of the registry;
  \<open>receives s r ws\<close>: the socket \<open>ws\<close> is the one that a member of \<open>r\<close> resolves to,
  it is open and its \<open>send\<close> does not raise.
\<close>

definition live_member :: "handler \<Rightarrow> string \<Rightarrow> bool" where
  "live_member s cid =
     (case find_ws s cid of None \<Rightarrow> False | Some ws \<Rightarrow> readyState (sockets s ws) = OPEN)"

definition send_fails :: "handler \<Rightarrow> string \<Rightarrow> bool" where
  "send_fails s cid =
     (case find_ws s cid of None \<Rightarrow> False | Some ws \<Rightarrow> sendThrows (sockets s ws))"

definition receives :: "handler \<Rightarrow> room \<Rightarrow> nat \<Rightarrow> bool" where
  "receives s r ws \<longleftrightarrow>
     clientId (clientDatas s ws) \<in> set (room_clients r) \<and>
     find_ws s (clientId (clientDatas s ws)) = Some ws \<and>
     readyState (sockets s ws) = OPEN \<and> \<not> sendThrows (sockets s ws)"

text \<open>The error that a handler raised, and the state it left.\<close>

definition raised :: "(error \<times> handler) + handler \<Rightarrow> error option" where
  "raised res = (case res of Inl (e, s) \<Rightarrow> Some e | Inr s \<Rightarrow> None)"

definition state_of :: "(error \<times> handler) + handler \<Rightarrow> handler" where
  "state_of res = (case res of Inl (e, s) \<Rightarrow> s | Inr s \<Rightarrow> s)"

section \<open>Examples\<close>

text \<open>The defaults of the constructor, with a token for the cases with authentication.\<close>

definition defaults :: config where
  "defaults = \<lparr>enableAuthentication = False, authToken = ''secret'', dbTableName = ''sensors_data'',
     requiredFields = [], enableHeartbeat = True, heartbeatInterval = 30000, maxConnections = 10,
     enableDataValidation = True, enableDatabaseSync = True, enableRoomBroadcast = True\<rparr>"

definition msg :: "string \<Rightarrow> (string \<times> json) list \<Rightarrow> json option" where
  "msg ty props = Some (frame ty props)"

text \<open>Frames and rooms of the examples.\<close>

definition join_lobby :: "json option" where
  "join_lobby = msg ''join_room'' [(''roomId'', JStr ''lobby'')]"

definition lobby :: json where
  "lobby = frame ''any'' [(''roomId'', JStr ''lobby'')]"

definition notice :: json where
  "notice = frame ''notice'' []"

definition generic_room :: "string list \<Rightarrow> room" where
  "generic_room cids = \<lparr>room_clients = cids, table = JUndefined, filters = JUndefined\<rparr>"

definition subscribe_sensors :: "json option" where
  "subscribe_sensors = msg ''db_subscribe'' [(''table'', JStr ''sensors'')]"

definition unsubscribe_frame :: json where
  "unsubscribe_frame = frame ''db_unsubscribe'' [(''table'', JStr ''sensors'')]"

definition unsubscribe_sensors :: "json option" where
  "unsubscribe_sensors = Some unsubscribe_frame"

definition sensors_room :: "string list \<Rightarrow> room" where
  "sensors_room cids = \<lparr>room_clients = cids, table = JStr ''sensors'', filters = JObj []\<rparr>"

definition join_sensors_room :: "json option" where
  "join_sensors_room = msg ''join_room'' [(''roomId'', JStr ''db_sensors'')]"

definition wrong_token :: json where
  "wrong_token = frame ''auth'' [(''token'', JStr ''guess'')]"






text \<open>A client connects and joins the room \<open>lobby\<close>; then its transport closes.\<close>

definition joined :: handler where
  "joined = run [Connection ''10.0.0.1'' None ''c1'' 0, MessageEv 0 join_lobby 5]
              (initial defaults PlainDB)"

definition joined_then_closed :: handler where
  "joined_then_closed = step (CloseEv 0) joined"

text \<open>The same client misses its heartbeats: the timer closes the transport.\<close>

definition timed_out :: handler where
  "timed_out = run [HeartbeatTimer 0 60001, CloseEv 0] joined"

text \<open>Two clients are connected; no room exists.\<close>

definition two_clients :: handler where
  "two_clients = run [Connection ''10.0.0.1'' None ''c1'' 0, Connection ''10.0.0.2'' None ''c2'' 1]
                   (initial defaults PlainDB)"

text \<open>Three clients join a room; the third disconnects, the second is being closed.\<close>

definition three_joined :: handler where
  "three_joined =
     run [Connection ''10.0.0.1'' None ''c1'' 0, Connection ''10.0.0.2'' None ''c2'' 1,
          Connection ''10.0.0.3'' None ''c3'' 2,
          MessageEv 0 join_lobby 3, MessageEv 1 join_lobby 4, MessageEv 2 join_lobby 5,
          CloseEv 2, HeartbeatTimer 1 70000]
       (initial defaults PlainDB)"

text \<open>A client in a room of a server that has room broadcast switched off.\<close>

definition no_room_broadcast :: handler where
  "no_room_broadcast =
     run [Connection ''10.0.0.1'' None ''c1'' 0, MessageEv 0 join_lobby 3]
       (initial (defaults\<lparr>enableRoomBroadcast := False\<rparr>) PlainDB)"

text \<open>A server with room for one connection, one client connected, and a second connection.\<close>

definition one_slot :: config where
  "one_slot = defaults\<lparr>maxConnections := 1\<rparr>"

definition one_client :: handler where
  "one_client = run [Connection ''10.0.0.1'' None ''c1'' 0] (initial one_slot PlainDB)"

definition second_connection :: handler where
  "second_connection = step (Connection ''10.0.0.2'' None ''c2'' 1) one_client"

text \<open>A server with authentication, and a client that has not authenticated.\<close>

definition with_auth :: config where
  "with_auth = defaults\<lparr>enableAuthentication := True\<rparr>"

definition guest :: handler where
  "guest = run [Connection ''10.0.0.1'' None ''c1'' 0] (initial with_auth PlainDB)"

text \<open>The same client joins the room of the table \<open>sensors\<close>.\<close>

definition intruder :: handler where
  "intruder = step (MessageEv 0 join_sensors_room 3) guest"






text \<open>Servers whose database is the adapter, or Firestore itself; two clients subscribe to a table and unsubscribe again.\<close>

definition with_adapter :: handler where
  "with_adapter = initial defaults (DatabaseAdapter (Some True))"

definition with_firestore :: handler where
  "with_firestore = initial defaults (FirebaseDB True)"

definition two_subscribers :: "event list" where
  "two_subscribers =
     [Connection ''10.0.0.1'' None ''c1'' 0, Connection ''10.0.0.2'' None ''c2'' 1,
      MessageEv 0 subscribe_sensors 2, MessageEv 1 subscribe_sensors 3]"

definition both_unsubscribe :: "event list" where
  "both_unsubscribe = [MessageEv 0 unsubscribe_sensors 4, MessageEv 1 unsubscribe_sensors 5]"

text \<open>One client subscribes at the server whose database is the adapter.\<close>

definition last_subscriber :: handler where
  "last_subscriber = run [Connection ''10.0.0.1'' None ''c1'' 0, MessageEv 0 subscribe_sensors 2]
                       with_adapter"

section \<open>What the handlers leave unchanged\<close>

lemma sendToClient_other [simp]:
  "config (sendToClient s ws m) = config s"
  "db (sendToClient s ws m) = db s"
  "clients (sendToClient s ws m) = clients s"
  "clientDatas (sendToClient s ws m) = clientDatas s"
  "listeners (sendToClient s ws m) = listeners s"
  "rooms (sendToClient s ws m) = rooms s"
  "orphanRooms (sendToClient s ws m) = orphanRooms s"
  "dbSubscriptions (sendToClient s ws m) = dbSubscriptions s"
  "connectionCount (sendToClient s ws m) = connectionCount s"
  "nextSocket (sendToClient s ws m) = nextSocket s"
  "heartbeatTimers (sendToClient s ws m) = heartbeatTimers s"
  "authTimers (sendToClient s ws m) = authTimers s"
  "dbCalls (sendToClient s ws m) = dbCalls s"
  "deferredCalls (sendToClient s ws m) = deferredCalls s"
  "feeds (sendToClient s ws m) = feeds s"
  "cancelled (sendToClient s ws m) = cancelled s"
  by (simp_all add: sendToClient_def ws_send_def)

lemma sendToClient_socket:
  "sockets (sendToClient s ws m) w =
     (if w = ws \<and> readyState (sockets s ws) = OPEN \<and> \<not> sendThrows (sockets s ws)
      then (sockets s ws)\<lparr>sent := sent (sockets s ws) @ [m]\<rparr> else sockets s w)"
  by (simp add: sendToClient_def ws_send_def)

lemma sendToClient_readyState [simp]:
  "readyState (sockets (sendToClient s ws m) w) = readyState (sockets s w)"
  "sendThrows (sockets (sendToClient s ws m) w) = sendThrows (sockets s w)"
  "closeArgs (sockets (sendToClient s ws m) w) = closeArgs (sockets s w)"
  "pings (sockets (sendToClient s ws m) w) = pings (sockets s w)"
  by (simp_all add: sendToClient_socket)

lemma sendToClient_sent:
  "sent (sockets (sendToClient s ws m) w) =
     (if w = ws \<and> readyState (sockets s ws) = OPEN \<and> \<not> sendThrows (sockets s ws)
      then sent (sockets s ws) @ [m] else sent (sockets s w))"
  by (simp add: sendToClient_socket)

lemma same_registry_refl [simp]: "same_registry s s"
  by (simp add: same_registry_def)

lemma same_registry_trans: "same_registry s t \<Longrightarrow> same_registry t u \<Longrightarrow> same_registry s u"
  by (auto simp: same_registry_def)

lemma same_registry_send [simp]: "same_registry s (sendToClient t ws m) = same_registry s t"
  by (simp add: same_registry_def)

lemma checkAuthAndSend_same: "checkAuthAndSend s ws = (b, s') \<Longrightarrow> same_registry s s'"
  by (auto simp: checkAuthAndSend_def split: if_splits)

lemma checkAuthAndSend_rooms:
  "checkAuthAndSend s ws = (b, s') \<Longrightarrow>
     rooms s' = rooms s \<and> orphanRooms s' = orphanRooms s \<and> dbSubscriptions s' = dbSubscriptions s
     \<and> feeds s' = feeds s \<and> cancelled s' = cancelled s \<and> dbCalls s' = dbCalls s
     \<and> deferredCalls s' = deferredCalls s \<and> clientDatas s' = clientDatas s"
  by (auto simp: checkAuthAndSend_def split: if_splits)

lemma same_handleAuthentication: "same_registry s (handleAuthentication s ws m)"
  by (simp add: handleAuthentication_def same_registry_def)

lemma same_handleSensorData: "same_registry s (handleSensorData s ws m now)"
  by (simp add: handleSensorData_def saveToDatabase_def Let_def same_registry_def
           split: sum.splits)

lemma same_handleHeartbeat: "same_registry s (handleHeartbeat s ws now)"
  by (simp add: handleHeartbeat_def same_registry_def)

lemma same_handleDatabaseCreate: "same_registry s (handleDatabaseCreate s ws m)"
  by (auto simp: handleDatabaseCreate_def Let_def same_registry_def checkAuthAndSend_def)

lemma same_handleDatabaseRead: "same_registry s (handleDatabaseRead s ws m)"
  by (auto simp: handleDatabaseRead_def Let_def same_registry_def checkAuthAndSend_def)

lemma same_handleDatabaseUpdate: "same_registry s (handleDatabaseUpdate s ws m)"
  by (auto simp: handleDatabaseUpdate_def Let_def same_registry_def checkAuthAndSend_def)

lemma same_handleDatabaseDelete: "same_registry s (handleDatabaseDelete s ws m)"
  by (auto simp: handleDatabaseDelete_def Let_def same_registry_def checkAuthAndSend_def)

lemma same_handleDatabaseSubscribe: "same_registry s (handleDatabaseSubscribe s ws m)"
  by (auto simp: handleDatabaseSubscribe_def Let_def same_registry_def checkAuthAndSend_def
           split: option.splits sum.splits)

lemma same_handleDatabaseUnsubscribe:
  "handleDatabaseUnsubscribe s ws m = Inr s' \<or> handleDatabaseUnsubscribe s ws m = Inl (e, s')
   \<Longrightarrow> same_registry s s'"
  by (auto simp: handleDatabaseUnsubscribe_def Let_def same_registry_def
           split: option.splits if_splits sum.splits)

lemma same_handleJoinRoom: "same_registry s (handleJoinRoom s ws m)"
  by (auto simp: handleJoinRoom_def Let_def same_registry_def split: option.splits)

lemma same_handleLeaveRoom: "same_registry s (handleLeaveRoom s ws m)"
  by (auto simp: handleLeaveRoom_def Let_def same_registry_def split: option.splits)

lemma same_dispatch:
  "dispatch s ws m now = Inr s' \<or> dispatch s ws m now = Inl (e, s') \<Longrightarrow> same_registry s s'"
  unfolding dispatch_def Let_def
  using same_handleAuthentication same_handleSensorData same_handleHeartbeat
    same_handleDatabaseCreate same_handleDatabaseRead same_handleDatabaseUpdate
    same_handleDatabaseDelete same_handleDatabaseSubscribe same_handleJoinRoom
    same_handleLeaveRoom same_handleDatabaseUnsubscribe [of s ws m s' e]
  by (auto split: if_splits option.splits sum.splits)

lemma same_handleClientMessage: "same_registry s (handleClientMessage s ws raw now)"
proof (cases raw)
  case None
  then show ?thesis by (simp add: handleClientMessage_def)
next
  case (Some message)
  define s1 where "s1 = s\<lparr>clientDatas := (clientDatas s)
     (ws := (clientDatas s ws)\<lparr>lastDataTime := Some now, dataReceived := Suc (dataReceived (clientDatas s ws))\<rparr>)\<rparr>"
  have a: "same_registry s s1" by (simp add: s1_def same_registry_def)
  have b: "same_registry s1 (case dispatch s1 ws message now of
                    Inl (e, s2) \<Rightarrow> sendToClient s2 ws invalidJsonFrame
                  | Inr s2 \<Rightarrow> s2)"
    using same_dispatch [of s1 ws message now]
    by (auto split: sum.splits)
  show ?thesis
    using a same_registry_trans [OF a b] Some
    by (simp add: handleClientMessage_def Let_def s1_def [symmetric])
qed

text \<open>A broadcast changes nothing but the frames sent.\<close>

lemma only_sent_refl [simp]: "only_sent s s"
  by (simp add: only_sent_def)

lemma only_sent_trans: "only_sent s t \<Longrightarrow> only_sent t u \<Longrightarrow> only_sent s u"
  using same_registry_trans [of s t u] by (simp add: only_sent_def)

lemma only_sent_sendToClient: "only_sent s (sendToClient s ws m)"
  by (simp add: only_sent_def)

lemma only_sent_send_counted: "only_sent s (snd (send_counted m ws (n, s)))"
  by (simp add: only_sent_def same_registry_def send_counted_def ws_send_def)

lemma only_sent_deliver: "only_sent (snd acc) (snd (deliver m cid acc))"
  using only_sent_send_counted [of "snd acc" m _ "fst acc"]
  by (cases acc) (simp add: deliver_def split: option.splits)

lemma only_sent_fold_deliver: "only_sent (snd acc) (snd (fold (deliver m) cids acc))"
proof (induction cids arbitrary: acc)
  case Nil
  show ?case by simp
next
  case (Cons cid cids)
  show ?case
    using only_sent_trans [OF only_sent_deliver [of acc m cid] Cons.IH [of "deliver m cid acc"]]
    by simp
qed

lemma only_sent_broadcastToRoom: "only_sent s (snd (broadcastToRoom s roomId m))"
  using only_sent_fold_deliver [of "(0, s)" m]
  by (simp add: broadcastToRoom_def split: option.splits)

text \<open>With room broadcast switched off, \<open>broadcastToRoom\<close> does nothing, in every state.\<close>

lemma broadcast_disabled:
  "\<not> enableRoomBroadcast (config s) \<Longrightarrow> broadcastToRoom s roomId m = (0, s)"
  by (simp add: broadcastToRoom_def)

lemma only_sent_feedCallback: "only_sent s (feedCallback s n changes)"
  using only_sent_broadcastToRoom [of s]
  by (simp add: feedCallback_def split: sum.splits)

text \<open>Resuming a suspended handler moves one call from the queue to the log.\<close>

lemma resumeHandler_other [simp]:
  "config (resumeHandler s) = config s"
  "db (resumeHandler s) = db s"
  "clients (resumeHandler s) = clients s"
  "clientDatas (resumeHandler s) = clientDatas s"
  "listeners (resumeHandler s) = listeners s"
  "rooms (resumeHandler s) = rooms s"
  "orphanRooms (resumeHandler s) = orphanRooms s"
  "dbSubscriptions (resumeHandler s) = dbSubscriptions s"
  "connectionCount (resumeHandler s) = connectionCount s"
  "sockets (resumeHandler s) = sockets s"
  "nextSocket (resumeHandler s) = nextSocket s"
  "heartbeatTimers (resumeHandler s) = heartbeatTimers s"
  "authTimers (resumeHandler s) = authTimers s"
  "feeds (resumeHandler s) = feeds s"
  "cancelled (resumeHandler s) = cancelled s"
  by (simp_all add: resumeHandler_def split: list.splits)

text \<open>Handling a message adds no identity to a room but the sender's.\<close>

lemma members_from_same_rooms:
  "rooms s' = rooms s \<Longrightarrow> orphanRooms s' = orphanRooms s \<Longrightarrow> members_from ws s s'"
  by (simp add: members_from_def)

lemma members_handleJoinRoom: "members_from ws s (handleJoinRoom s ws m)"
  by (auto simp: handleJoinRoom_def Let_def members_from_def set_add_def
           split: option.splits if_splits)

lemma members_handleLeaveRoom: "members_from ws s (handleLeaveRoom s ws m)"
  by (auto simp: handleLeaveRoom_def Let_def members_from_def set_delete_def rooms_get_def
           split: option.splits if_splits)

lemma members_handleDatabaseSubscribe: "members_from ws s (handleDatabaseSubscribe s ws m)"
  by (auto simp: handleDatabaseSubscribe_def Let_def members_from_def set_add_def
                 checkAuthAndSend_def
           split: option.splits if_splits sum.splits)

lemma members_handleDatabaseUnsubscribe:
  "handleDatabaseUnsubscribe s ws m = Inr s' \<or> handleDatabaseUnsubscribe s ws m = Inl (e, s')
   \<Longrightarrow> members_from ws s s'"
  by (auto simp: handleDatabaseUnsubscribe_def Let_def members_from_def set_delete_def
           split: option.splits if_splits sum.splits)

lemma members_dispatch:
  "dispatch s ws m now = Inr s' \<or> dispatch s ws m now = Inl (e, s') \<Longrightarrow> members_from ws s s'"
  unfolding dispatch_def Let_def
  using members_handleJoinRoom [of ws s m] members_handleLeaveRoom [of ws s m]
    members_handleDatabaseSubscribe [of ws s m] members_handleDatabaseUnsubscribe [of s ws m s' e]
  by (auto split: if_splits option.splits sum.splits
      simp: members_from_same_rooms handleAuthentication_def handleSensorData_def
        handleHeartbeat_def handleDatabaseCreate_def handleDatabaseRead_def
        handleDatabaseUpdate_def handleDatabaseDelete_def checkAuthAndSend_def
        saveToDatabase_def Let_def)

section \<open>The invariants are kept by every event\<close>


lemma members_handleClientMessage: "members_from ws s (handleClientMessage s ws raw now)"
proof (cases raw)
  case None
  then show ?thesis by (simp add: handleClientMessage_def members_from_same_rooms)
next
  case (Some message)
  define s1 where "s1 = s\<lparr>clientDatas := (clientDatas s)
     (ws := (clientDatas s ws)\<lparr>lastDataTime := Some now, dataReceived := Suc (dataReceived (clientDatas s ws))\<rparr>)\<rparr>"
  have a: "rooms s1 = rooms s" "orphanRooms s1 = orphanRooms s"
    "clientId (clientDatas s1 ws) = clientId (clientDatas s ws)"
    by (simp_all add: s1_def)
  have b: "members_from ws s1 (case dispatch s1 ws message now of
                    Inl (e, s2) \<Rightarrow> sendToClient s2 ws invalidJsonFrame
                  | Inr s2 \<Rightarrow> s2)"
    using members_dispatch [of s1 ws message now]
    by (auto split: sum.splits simp: members_from_def)
  have c: "members_from ws s s1"
    using a by (simp add: members_from_same_rooms)
  show ?thesis
    using b c a Some
    by (simp add: handleClientMessage_def Let_def s1_def [symmetric] members_from_def)
qed

lemma handleNewConnection_fields:
  "nextSocket (handleNewConnection s ws a u c now) = nextSocket s"
  "rooms (handleNewConnection s ws a u c now) = rooms s"
  "orphanRooms (handleNewConnection s ws a u c now) = orphanRooms s"
  "authTimers (handleNewConnection s ws a u c now) = authTimers s"
  "dbSubscriptions (handleNewConnection s ws a u c now) = dbSubscriptions s"
  "feeds (handleNewConnection s ws a u c now) = feeds s"
  "cancelled (handleNewConnection s ws a u c now) = cancelled s"
  "dbCalls (handleNewConnection s ws a u c now) = dbCalls s"
  "config (handleNewConnection s ws a u c now) = config s"
  "db (handleNewConnection s ws a u c now) = db s"
  by (simp_all add: handleNewConnection_def Let_def setupClientEventHandlers_def
        startClientHeartbeat_def)

lemma handleNewConnection_registry:
  "listeners (handleNewConnection s ws a u c now) =
     (if connectionCount s \<ge> maxConnections (config s) then listeners s else insert ws (listeners s))"
  "set (clients (handleNewConnection s ws a u c now)) =
     (if connectionCount s \<ge> maxConnections (config s) then set (clients s) else insert ws (set (clients s)))"
  "w \<noteq> ws \<Longrightarrow> clientDatas (handleNewConnection s ws a u c now) w = clientDatas s w"
  "w \<noteq> ws \<Longrightarrow> sockets (handleNewConnection s ws a u c now) w = sockets s w"
  "(readyState (sockets (handleNewConnection s ws a u c now) w) = CLOSED)
     = (readyState (sockets s w) = CLOSED)"
  by (auto simp: handleNewConnection_def Let_def setupClientEventHandlers_def
        startClientHeartbeat_def set_add_def ws_close_def sendToClient_socket)

lemma step_allocated: "allocated s \<Longrightarrow> allocated (step e s)"
proof (cases e)
  case (Connection a u c now)
  assume "allocated s"
  then show ?thesis
    unfolding Connection allocated_def step.simps Let_def
    by (auto simp: handleNewConnection_fields handleNewConnection_registry new_socket_def less_Suc_eq)
next
  case (MessageEv ws raw now)
  assume "allocated s"
  then show ?thesis
    using same_handleClientMessage [of s ws raw now]
    by (simp add: MessageEv allocated_def same_registry_def)
next
  case (PongEv ws now)
  assume "allocated s"
  then show ?thesis by (simp add: PongEv allocated_def handlePong_def)
next
  case (CloseEv ws)
  assume "allocated s"
  then show ?thesis by (simp add: CloseEv allocated_def handleClientDisconnection_def Let_def)
next
  case (HeartbeatTimer ws now)
  assume "allocated s"
  then show ?thesis
    by (auto simp: HeartbeatTimer allocated_def heartbeatTick_def ws_close_def ws_ping_def)
next
  case (AuthTimer ws)
  assume "allocated s"
  then show ?thesis by (auto simp: AuthTimer allocated_def authTimerFired_def ws_close_def)
next
  case (FeedChange n changes)
  assume "allocated s"
  then show ?thesis
    using only_sent_feedCallback [of s n changes]
    by (simp add: FeedChange allocated_def only_sent_def same_registry_def)
next
  case Microtask
  assume "allocated s"
  then show ?thesis by (simp add: Microtask allocated_def)
qed


lemma step_registered:
  assumes "allocated s" and "registered_while_open s"
  shows "registered_while_open (step e s)"
proof (cases e)
  case (Connection a u c now)
  show ?thesis
    using assms unfolding Connection allocated_def registered_while_open_def step.simps Let_def
    by (auto simp: handleNewConnection_fields handleNewConnection_registry new_socket_def)
next
  case (MessageEv ws raw now)
  show ?thesis
    using assms same_handleClientMessage [of s ws raw now]
    by (simp add: MessageEv registered_while_open_def same_registry_def)
next
  case (PongEv ws now)
  show ?thesis using assms by (simp add: PongEv registered_while_open_def handlePong_def)
next
  case (CloseEv ws)
  show ?thesis
    using assms by (auto simp: CloseEv registered_while_open_def handleClientDisconnection_def Let_def)
next
  case (HeartbeatTimer ws now)
  show ?thesis
    using assms
    by (auto simp: HeartbeatTimer registered_while_open_def heartbeatTick_def ws_close_def ws_ping_def)
next
  case (AuthTimer ws)
  show ?thesis
    using assms by (auto simp: AuthTimer registered_while_open_def authTimerFired_def ws_close_def)
next
  case (FeedChange n changes)
  show ?thesis
    using assms only_sent_feedCallback [of s n changes]
    by (simp add: FeedChange registered_while_open_def only_sent_def same_registry_def)
next
  case Microtask
  show ?thesis using assms by (simp add: Microtask registered_while_open_def)
qed

lemma accepted_id_mono:
  assumes "accepted_id s cid" and "listeners s \<subseteq> listeners s'"
      and "\<And>w. w \<in> listeners s \<Longrightarrow> clientId (clientDatas s' w) = clientId (clientDatas s w)"
  shows "accepted_id s' cid"
  using assms unfolding accepted_id_def by force

lemma members_accepted_mono:
  assumes "members_accepted s" and "rooms s' = rooms s" and "orphanRooms s' = orphanRooms s"
      and "listeners s \<subseteq> listeners s'"
      and "\<And>w. w \<in> listeners s \<Longrightarrow> clientId (clientDatas s' w) = clientId (clientDatas s w)"
  shows "members_accepted s'"
  using assms accepted_id_mono [of s _ s'] unfolding members_accepted_def by simp

lemma step_members:
  assumes "allocated s" and "members_accepted s"
  shows "members_accepted (step e s)"
proof (cases e)
  case (Connection a u c now)
  let ?s0 = "s\<lparr>sockets := (sockets s)(nextSocket s := new_socket), nextSocket := Suc (nextSocket s)\<rparr>"
  have fresh: "nextSocket s \<notin> listeners s"
    using assms(1) by (auto simp: allocated_def)
  have "members_accepted (handleNewConnection ?s0 (nextSocket s) a u c now)"
  proof (rule members_accepted_mono [OF assms(2)])
    show "listeners s \<subseteq> listeners (handleNewConnection ?s0 (nextSocket s) a u c now)"
      by (auto simp: handleNewConnection_registry)
    show "clientId (clientDatas (handleNewConnection ?s0 (nextSocket s) a u c now) w)
            = clientId (clientDatas s w)" if "w \<in> listeners s" for w
      using that fresh by (cases "w = nextSocket s") (simp_all add: handleNewConnection_registry)
  qed (simp_all add: handleNewConnection_fields)
  then show ?thesis by (simp add: Connection Let_def)
next
  case (MessageEv ws raw now)
  show ?thesis
  proof (cases "ws \<in> listeners s \<and> readyState (sockets s ws) \<noteq> CLOSED")
    case False
    then have "step e s = s" by (auto simp: MessageEv)
    then show ?thesis using assms by simp
  next
    case True
    let ?s' = "handleClientMessage s ws raw now"
    have same: "same_registry s ?s'" by (rule same_handleClientMessage)
    have lis: "listeners ?s' = listeners s"
      and ids: "\<And>w. clientId (clientDatas ?s' w) = clientId (clientDatas s w)"
      using same by (simp_all add: same_registry_def)
    have sender: "accepted_id ?s' (clientId (clientDatas s ws))"
      unfolding accepted_id_def using True lis ids by (intro bexI [of _ ws]) simp_all
    have old: "accepted_id ?s' cid" if "accepted_id s cid" for cid
      using that lis ids by (intro accepted_id_mono [of s cid ?s']) simp_all
    have mf: "members_from ws s ?s'" by (rule members_handleClientMessage)
    have "members_accepted ?s'"
      unfolding members_accepted_def
    proof (intro conjI allI impI ballI)
      fix k r cid
      assume "rooms ?s' k = Some r" and "cid \<in> set (room_clients r)"
      then have "cid = clientId (clientDatas s ws) \<or>
                 (\<exists>r0. rooms s k = Some r0 \<and> cid \<in> set (room_clients r0))"
        using mf unfolding members_from_def by blast
      then show "accepted_id ?s' cid"
        using sender old assms(2) unfolding members_accepted_def by blast
    next
      fix r cid
      assume "r \<in> set (orphanRooms ?s')" and c: "cid \<in> set (room_clients r)"
      then have "r \<in> set (orphanRooms s) \<or> room_clients r = [clientId (clientDatas s ws)]"
        using mf unfolding members_from_def by blast
      then show "accepted_id ?s' cid"
        using c sender old assms(2) unfolding members_accepted_def by auto
    qed
    then show ?thesis using True by (simp add: MessageEv)
  qed
next
  case (PongEv ws now)
  have "members_accepted (handlePong s ws now)"
    by (rule members_accepted_mono [OF assms(2)]) (simp_all add: handlePong_def)
  then show ?thesis using assms by (simp add: PongEv)
next
  case (CloseEv ws)
  let ?s1 = "s\<lparr>sockets := (sockets s)(ws := (sockets s ws)\<lparr>readyState := CLOSED\<rparr>)\<rparr>"
  have a: "members_accepted ?s1"
    by (rule members_accepted_mono [OF assms(2)]) simp_all
  have b: "members_accepted (handleClientDisconnection ?s1 ws)"
    by (rule members_accepted_mono [OF assms(2)]) (simp_all add: handleClientDisconnection_def)
  show ?thesis using a b assms by (simp add: CloseEv Let_def)
next
  case (HeartbeatTimer ws now)
  have "members_accepted (heartbeatTick s ws now)"
    by (rule members_accepted_mono [OF assms(2)]) (simp_all add: heartbeatTick_def)
  then show ?thesis using assms by (simp add: HeartbeatTimer)
next
  case (AuthTimer ws)
  have "members_accepted (authTimerFired (s\<lparr>authTimers := remove1 ws (authTimers s)\<rparr>) ws)"
    by (rule members_accepted_mono [OF assms(2)]) (simp_all add: authTimerFired_def)
  then show ?thesis using assms by (simp add: AuthTimer)
next
  case (FeedChange n changes)
  have "members_accepted (feedCallback s n changes)"
    using only_sent_feedCallback [of s n changes]
    by (intro members_accepted_mono [OF assms(2)])
       (simp_all add: only_sent_def same_registry_def)
  then show ?thesis using assms by (simp add: FeedChange)
next
  case Microtask
  have "members_accepted (resumeHandler s)"
    by (rule members_accepted_mono [OF assms(2)]) simp_all
  then show ?thesis by (simp add: Microtask)
qed

lemma step_none_closed:
  assumes "\<not> is_close e" and "none_closed s"
  shows "none_closed (step e s)"
proof (cases e)
  case (Connection a u c now)
  show ?thesis
    using assms unfolding Connection none_closed_def step.simps Let_def
    by (auto simp: handleNewConnection_fields handleNewConnection_registry new_socket_def)
next
  case (MessageEv ws raw now)
  show ?thesis
    using assms same_handleClientMessage [of s ws raw now]
    by (simp add: MessageEv none_closed_def same_registry_def)
next
  case (PongEv ws now)
  show ?thesis using assms by (simp add: PongEv none_closed_def handlePong_def)
next
  case (CloseEv ws)
  show ?thesis using assms by (simp add: CloseEv is_close_def)
next
  case (HeartbeatTimer ws now)
  show ?thesis
    using assms
    by (auto simp: HeartbeatTimer none_closed_def heartbeatTick_def ws_close_def ws_ping_def)
next
  case (AuthTimer ws)
  show ?thesis
    using assms by (auto simp: AuthTimer none_closed_def authTimerFired_def ws_close_def)
next
  case (FeedChange n changes)
  show ?thesis
    using assms only_sent_feedCallback [of s n changes]
    by (simp add: FeedChange none_closed_def only_sent_def same_registry_def)
next
  case Microtask
  show ?thesis using assms by (simp add: Microtask none_closed_def)
qed


lemma run_Cons [simp]: "run (e # evs) s = run evs (step e s)"
  by (simp add: run_def)

lemma run_Nil [simp]: "run [] s = s"
  by (simp add: run_def)

lemma run_invariants:
  assumes "allocated s" and "registered_while_open s" and "members_accepted s"
  shows "allocated (run evs s) \<and> registered_while_open (run evs s) \<and> members_accepted (run evs s)"
  using assms
proof (induction evs arbitrary: s)
  case Nil
  then show ?case by simp
next
  case (Cons e evs)
  show ?case
    using Cons.IH [of "step e s"] step_allocated [OF Cons.prems(1)]
      step_registered [OF Cons.prems(1,2)] step_members [OF Cons.prems(1,3)]
    by simp
qed

lemma run_none_closed:
  assumes "none_closed s" and "\<not> list_ex is_close evs"
  shows "none_closed (run evs s)"
  using assms
proof (induction evs arbitrary: s)
  case Nil
  then show ?case by simp
next
  case (Cons e evs)
  show ?case
    using Cons.IH [of "step e s"] step_none_closed [of e s] Cons.prems
    by simp
qed

lemma initial_invariants:
  "allocated (initial cfg dbi)" "registered_while_open (initial cfg dbi)"
  "members_accepted (initial cfg dbi)" "none_closed (initial cfg dbi)"
  by (simp_all add: initial_def allocated_def registered_while_open_def members_accepted_def
        none_closed_def)

lemma closed_after_close: "readyState (sockets (step (CloseEv ws) s) ws) = CLOSED"
  by (simp add: Let_def handleClientDisconnection_def)

lemma step_never_registered:
  assumes "ws < nextSocket s" and "ws \<notin> set (clients s)"
  shows "ws < nextSocket (step e s) \<and> ws \<notin> set (clients (step e s))"
proof (cases e)
  case (Connection a u c now)
  show ?thesis
    using assms unfolding Connection step.simps Let_def
    by (auto simp: handleNewConnection_fields handleNewConnection_registry)
next
  case (MessageEv w raw now)
  show ?thesis
    using assms same_handleClientMessage [of s w raw now]
    by (simp add: MessageEv same_registry_def)
next
  case (PongEv w now)
  show ?thesis using assms by (simp add: PongEv handlePong_def)
next
  case (CloseEv w)
  show ?thesis using assms by (simp add: CloseEv handleClientDisconnection_def Let_def)
next
  case (HeartbeatTimer w now)
  show ?thesis using assms by (simp add: HeartbeatTimer heartbeatTick_def)
next
  case (AuthTimer w)
  show ?thesis using assms by (simp add: AuthTimer authTimerFired_def)
next
  case (FeedChange n changes)
  show ?thesis
    using assms only_sent_feedCallback [of s n changes]
    by (simp add: FeedChange only_sent_def same_registry_def)
next
  case Microtask
  show ?thesis using assms by (simp add: Microtask)
qed

lemma run_never_registered:
  assumes "ws < nextSocket s" and "ws \<notin> set (clients s)"
  shows "ws \<notin> set (clients (run evs s))"
  using assms
proof (induction evs arbitrary: s)
  case Nil
  then show ?case by simp
next
  case (Cons e evs)
  show ?case
    using Cons.IH [of "step e s"] step_never_registered [OF Cons.prems] by simp
qed

lemma step_authTimers_pending:
  assumes "e \<noteq> AuthTimer ws" and "ws \<in> set (authTimers s)"
  shows "ws \<in> set (authTimers (step e s))"
proof (cases e)
  case (Connection a u c now)
  show ?thesis using assms by (simp add: Connection Let_def handleNewConnection_fields)
next
  case (MessageEv w raw now)
  show ?thesis
    using assms same_handleClientMessage [of s w raw now]
    by (auto simp: MessageEv same_registry_def)
next
  case (PongEv w now)
  show ?thesis using assms by (simp add: PongEv handlePong_def)
next
  case (CloseEv w)
  show ?thesis using assms by (simp add: CloseEv handleClientDisconnection_def Let_def)
next
  case (HeartbeatTimer w now)
  show ?thesis using assms by (simp add: HeartbeatTimer heartbeatTick_def)
next
  case (AuthTimer w)
  show ?thesis using assms by (auto simp: AuthTimer authTimerFired_def)
next
  case (FeedChange n changes)
  show ?thesis
    using assms only_sent_feedCallback [of s n changes]
    by (simp add: FeedChange only_sent_def)
next
  case Microtask
  show ?thesis using assms by (simp add: Microtask)
qed

lemma run_authTimers_pending:
  assumes "AuthTimer ws \<notin> set evs" and "ws \<in> set (authTimers s)"
  shows "ws \<in> set (authTimers (run evs s))"
  using assms
proof (induction evs arbitrary: s)
  case Nil
  then show ?case by simp
next
  case (Cons e evs)
  show ?case
    using Cons.IH [of "step e s"] step_authTimers_pending [of e ws s] Cons.prems by auto
qed

lemma authTimer_closes:
  assumes "ws \<in> set (authTimers t)"
  shows "readyState (sockets (step (AuthTimer ws) t) ws) \<noteq> OPEN"
    and "readyState (sockets t ws) = OPEN \<Longrightarrow>
         closeArgs (sockets (step (AuthTimer ws) t) ws) = Some (1008, ''Authentication failed'')"
  using assms by (simp_all add: authTimerFired_def ws_close_def)


lemma nonempty_handleJoinRoom: "rooms_nonempty s \<Longrightarrow> rooms_nonempty (handleJoinRoom s ws m)"
  by (auto simp: rooms_nonempty_def handleJoinRoom_def Let_def set_add_def split: option.splits)

lemma nonempty_handleLeaveRoom: "rooms_nonempty s \<Longrightarrow> rooms_nonempty (handleLeaveRoom s ws m)"
  by (auto simp: rooms_nonempty_def handleLeaveRoom_def Let_def rooms_get_def split: option.splits)

lemma nonempty_fold_membership:
  "rooms_nonempty s \<Longrightarrow> rooms_nonempty (fold membership ops s)"
proof (induction ops arbitrary: s)
  case Nil
  then show ?case by simp
next
  case (Cons op ops)
  have "rooms_nonempty (membership op s)"
    using Cons.prems nonempty_handleJoinRoom nonempty_handleLeaveRoom by (cases op) simp_all
  then show ?case using Cons.IH by simp
qed

lemma removeAll_Nil_iff: "removeAll a xs = [] \<longleftrightarrow> set xs \<subseteq> {a}"
  by (induction xs) auto

lemma members_join:
  "members (handleJoinRoom s ws m) k =
     (if truthy (room_of m) \<and> \<not> is_reference (room_of m) \<and> k = room_of m
      then insert (clientId (clientDatas s ws)) (members s k) else members s k)"
  by (auto simp: members_def handleJoinRoom_def room_of_def Let_def set_add_def split: option.splits)

lemma members_leave:
  "members (handleLeaveRoom s ws m) k =
     (if truthy (room_of m) \<and> \<not> is_reference (room_of m) \<and> k = room_of m
      then members s k - {clientId (clientDatas s ws)} else members s k)"
  by (auto simp: members_def handleLeaveRoom_def room_of_def Let_def set_delete_def rooms_get_def
                 removeAll_Nil_iff
           split: option.splits)

lemma find_ws_only_sent: "only_sent s s' \<Longrightarrow> find_ws s' cid = find_ws s cid"
  by (simp add: find_ws_def only_sent_def same_registry_def)

lemma find_ws_id: "find_ws s cid = Some ws \<Longrightarrow> clientId (clientDatas s ws) = cid"
  by (auto simp: find_ws_def find_Some_iff)

lemma deliver_effect:
  "fst (deliver m cid (n, s)) = (if live_member s cid \<and> \<not> send_fails s cid then n + 1 else n)"
  "sent (sockets (snd (deliver m cid (n, s))) w) =
     sent (sockets s w) @
       (if live_member s cid \<and> \<not> send_fails s cid \<and> find_ws s cid = Some w then [m] else [])"
  by (auto simp: deliver_def send_counted_def ws_send_def live_member_def send_fails_def
           split: option.splits)

lemma deliver_keeps:
  "live_member (snd (deliver m cid acc)) c = live_member (snd acc) c"
  "send_fails (snd (deliver m cid acc)) c = send_fails (snd acc) c"
  "find_ws (snd (deliver m cid acc)) c = find_ws (snd acc) c"
  using only_sent_deliver [of acc m cid] find_ws_only_sent [of "snd acc" "snd (deliver m cid acc)" c]
  by (auto simp: live_member_def send_fails_def only_sent_def same_registry_def
           split: option.splits)

lemma fold_deliver_count:
  "fst (fold (deliver m) cids (n, s)) =
     n + length (filter (\<lambda>cid. live_member s cid \<and> \<not> send_fails s cid) cids)"
proof (induction cids arbitrary: n s)
  case Nil
  show ?case by simp
next
  case (Cons cid cids)
  obtain n' s' where d: "deliver m cid (n, s) = (n', s')" by (cases "deliver m cid (n, s)")
  have k: "live_member s' c = live_member s c" "send_fails s' c = send_fails s c" for c
    using deliver_keeps(1,2) [of m cid "(n, s)" c] d by simp_all
  have n': "n' = (if live_member s cid \<and> \<not> send_fails s cid then n + 1 else n)"
    using deliver_effect(1) [of m cid n s] d by simp
  show ?case
    using Cons.IH [of n' s'] d k n' by simp
qed

lemma fold_deliver_sent:
  "sent (sockets (snd (fold (deliver m) cids (n, s))) w) =
     sent (sockets s w) @
       replicate (length (filter (\<lambda>cid. live_member s cid \<and> \<not> send_fails s cid
                                        \<and> find_ws s cid = Some w) cids)) m"
proof (induction cids arbitrary: n s)
  case Nil
  show ?case by simp
next
  case (Cons cid cids)
  obtain n' s' where d: "deliver m cid (n, s) = (n', s')" by (cases "deliver m cid (n, s)")
  have k: "live_member s' c = live_member s c" "send_fails s' c = send_fails s c"
    "find_ws s' c = find_ws s c" for c
    using deliver_keeps [of m cid "(n, s)" c] d by simp_all
  have s': "sent (sockets s' w) = sent (sockets s w) @
       (if live_member s cid \<and> \<not> send_fails s cid \<and> find_ws s cid = Some w then [m] else [])"
    using deliver_effect(2) [of m cid n s w] d by simp
  show ?case
    using Cons.IH [of n' s'] d k s' by (simp add: replicate_app_Cons_same)
qed

lemma count_resolving:
  assumes "distinct cids"
  shows "length (filter (\<lambda>cid. live_member s cid \<and> \<not> send_fails s cid \<and> find_ws s cid = Some w) cids)
         = (if receives s \<lparr>room_clients = cids, table = t, filters = f\<rparr> w then 1 else 0)"
proof -
  let ?a = "clientId (clientDatas s w)"
  have eq: "(live_member s cid \<and> \<not> send_fails s cid \<and> find_ws s cid = Some w)
        = (cid = ?a \<and> find_ws s ?a = Some w \<and> readyState (sockets s w) = OPEN
             \<and> \<not> sendThrows (sockets s w))" for cid
    using find_ws_id [of s cid w]
    by (auto simp: live_member_def send_fails_def)
  have one: "length (filter (\<lambda>cid. cid = ?a \<and> P) cids) = (if ?a \<in> set cids \<and> P then 1 else 0)" for P
    using assms by (induction cids) auto
  show ?thesis
    unfolding eq one by (simp add: receives_def)
qed

text \<open>
  Leaving a room twice leaves the registry as leaving it once does; so does unsubscribing,
  whether or not the call of the handle raises.
\<close>

lemma leave_room_twice:
  "rooms (handleLeaveRoom (handleLeaveRoom s ws m) ws m) = rooms (handleLeaveRoom s ws m)"
proof -
  have cd: "clientDatas (handleLeaveRoom s ws m) = clientDatas s"
    by (simp add: handleLeaveRoom_def Let_def split: option.splits)
  show ?thesis
    unfolding handleLeaveRoom_def [of "handleLeaveRoom s ws m"] cd
    by (auto simp: handleLeaveRoom_def Let_def rooms_get_def set_delete_def split: option.splits)
qed

lemma unsubscribe_twice:
  "rooms (state_of (handleDatabaseUnsubscribe (state_of (handleDatabaseUnsubscribe s ws m)) ws m))
     = rooms (state_of (handleDatabaseUnsubscribe s ws m))
   \<and> dbSubscriptions (state_of (handleDatabaseUnsubscribe (state_of (handleDatabaseUnsubscribe s ws m)) ws m))
     = dbSubscriptions (state_of (handleDatabaseUnsubscribe s ws m))
   \<and> cancelled (state_of (handleDatabaseUnsubscribe (state_of (handleDatabaseUnsubscribe s ws m)) ws m))
     = cancelled (state_of (handleDatabaseUnsubscribe s ws m))"
proof -
  let ?s1 = "state_of (handleDatabaseUnsubscribe s ws m)"
  have cd: "clientDatas ?s1 = clientDatas s"
    by (simp add: handleDatabaseUnsubscribe_def state_of_def Let_def split: option.splits sum.splits)
  show ?thesis
    unfolding handleDatabaseUnsubscribe_def [of ?s1] cd
    by (auto simp: handleDatabaseUnsubscribe_def state_of_def Let_def set_delete_def
             split: option.splits sum.splits)
qed

text \<open>The six kinds of message that the authentication gate covers.\<close>

lemma gate_rejects:
  assumes "enableAuthentication (config s)" and "\<not> isAuthenticated (clientDatas s ws)"
      and "get_prop m ''type'' = JStr ty"
      and "ty \<in> {''sensor_data'', ''db_create'', ''db_read'', ''db_update'', ''db_delete'', ''db_subscribe''}"
  shows "dispatch s ws m now = Inr (sendToClient s ws authRequiredFrame)"
  using assms
  by (auto simp: dispatch_def handleSensorData_def handleDatabaseCreate_def handleDatabaseRead_def
        handleDatabaseUpdate_def handleDatabaseDelete_def handleDatabaseSubscribe_def
        checkAuthAndSend_def)

text \<open>In every state that the events reach, the members of a room form a set.\<close>

lemma distinct_handleJoinRoom: "rooms_distinct s \<Longrightarrow> rooms_distinct (handleJoinRoom s ws m)"
  by (auto simp: rooms_distinct_def handleJoinRoom_def Let_def set_add_def split: option.splits)

lemma distinct_handleLeaveRoom: "rooms_distinct s \<Longrightarrow> rooms_distinct (handleLeaveRoom s ws m)"
  by (auto simp: rooms_distinct_def handleLeaveRoom_def Let_def set_delete_def rooms_get_def
           split: option.splits intro!: distinct_removeAll)

lemma distinct_handleDatabaseSubscribe:
  "rooms_distinct s \<Longrightarrow> rooms_distinct (handleDatabaseSubscribe s ws m)"
  by (auto simp: rooms_distinct_def handleDatabaseSubscribe_def Let_def set_add_def
                 checkAuthAndSend_def
           split: option.splits sum.splits)

lemma distinct_handleDatabaseUnsubscribe:
  "rooms_distinct s \<Longrightarrow> rooms_distinct (state_of (handleDatabaseUnsubscribe s ws m))"
  by (auto simp: rooms_distinct_def handleDatabaseUnsubscribe_def state_of_def Let_def set_delete_def
           split: option.splits sum.splits intro!: distinct_removeAll)

lemma distinct_dispatch:
  "rooms_distinct s \<Longrightarrow> rooms_distinct (state_of (dispatch s ws m now))"
  unfolding dispatch_def Let_def
  using distinct_handleJoinRoom [of s ws m] distinct_handleLeaveRoom [of s ws m]
    distinct_handleDatabaseSubscribe [of s ws m] distinct_handleDatabaseUnsubscribe [of s ws m]
  by (auto simp: state_of_def rooms_distinct_def handleAuthentication_def handleSensorData_def
        handleHeartbeat_def handleDatabaseCreate_def handleDatabaseRead_def
        handleDatabaseUpdate_def handleDatabaseDelete_def checkAuthAndSend_def
        saveToDatabase_def Let_def
      split: option.splits sum.splits)

lemma distinct_handleClientMessage:
  assumes "rooms_distinct s"
  shows "rooms_distinct (handleClientMessage s ws raw now)"
proof (cases raw)
  case None
  then show ?thesis using assms by (simp add: handleClientMessage_def rooms_distinct_def)
next
  case (Some message)
  define s1 where "s1 = s\<lparr>clientDatas := (clientDatas s)
     (ws := (clientDatas s ws)\<lparr>lastDataTime := Some now, dataReceived := Suc (dataReceived (clientDatas s ws))\<rparr>)\<rparr>"
  have a: "rooms_distinct s1"
    using assms by (simp add: s1_def rooms_distinct_def)
  have b: "rooms_distinct (case dispatch s1 ws message now of
                    Inl (e, s2) \<Rightarrow> sendToClient s2 ws invalidJsonFrame
                  | Inr s2 \<Rightarrow> s2)"
    using distinct_dispatch [OF a, of ws message now]
    by (auto split: sum.splits simp: state_of_def rooms_distinct_def)
  have c: "rooms_distinct (sendToClient s1 ws invalidJsonFrame)"
    using a by (simp add: rooms_distinct_def)
  show ?thesis
    using b c Some
    by (simp add: handleClientMessage_def Let_def s1_def [symmetric])
qed

lemma step_rooms_distinct:
  assumes "rooms_distinct s"
  shows "rooms_distinct (step e s)"
proof (cases e)
  case (Connection a u c now)
  show ?thesis
    using assms by (simp add: Connection Let_def rooms_distinct_def handleNewConnection_fields)
next
  case (MessageEv ws raw now)
  show ?thesis
    using assms distinct_handleClientMessage [OF assms] by (simp add: MessageEv)
next
  case (PongEv ws now)
  show ?thesis using assms by (simp add: PongEv handlePong_def rooms_distinct_def)
next
  case (CloseEv ws)
  show ?thesis
    using assms by (simp add: CloseEv handleClientDisconnection_def Let_def rooms_distinct_def)
next
  case (HeartbeatTimer ws now)
  show ?thesis using assms by (simp add: HeartbeatTimer heartbeatTick_def rooms_distinct_def)
next
  case (AuthTimer ws)
  show ?thesis using assms by (simp add: AuthTimer authTimerFired_def rooms_distinct_def)
next
  case (FeedChange n changes)
  show ?thesis
    using assms only_sent_feedCallback [of s n changes]
    by (simp add: FeedChange only_sent_def rooms_distinct_def)
next
  case Microtask
  show ?thesis using assms by (simp add: Microtask rooms_distinct_def)
qed

lemma run_rooms_distinct: "rooms_distinct (run evs (initial cfg dbi))"
proof -
  have "rooms_distinct s \<Longrightarrow> rooms_distinct (run evs s)" for s
  proof (induction evs arbitrary: s)
    case Nil
    then show ?case by simp
  next
    case (Cons e evs)
    show ?case using Cons.IH [OF step_rooms_distinct [OF Cons.prems]] by simp
  qed
  moreover have "rooms_distinct (initial cfg dbi)"
    by (simp add: rooms_distinct_def initial_def)
  ultimately show ?thesis by blast
qed

text \<open>A subscribe opens no feed for a room that has a feed entry.\<close>

lemma subscribe_keeps_feed:
  assumes "db_room (get_prop (js_or (get_prop m ''data'') m) ''table'') = Inr roomId"
      and "dbSubscriptions s roomId \<noteq> None"
  shows "feeds (handleDatabaseSubscribe s ws m) = feeds s"
    and "dbSubscriptions (handleDatabaseSubscribe s ws m) = dbSubscriptions s"
  using assms
  by (auto simp: handleDatabaseSubscribe_def checkAuthAndSend_def Let_def)








section \<open>The claims\<close>

subsection \<open>C1: teardown of a session\<close>

text \<open>
  C1, as stated, fails: a client that joined a room and is closed by the heartbeat timer
  leaves the registry, and its identity is still a member of the room.
\<close>

theorem timeout_leaves_member:
  "clients timed_out = []
   \<and> closeArgs (sockets timed_out 0) = Some (1000, ''Heartbeat timeout'')
   \<and> rooms timed_out (JStr ''lobby'') = Some (generic_room [''c1''])"
  by code_simp

text \<open>
  C1, amended: the teardown of a session, \<open>_handleClientDisconnection\<close>, removes its
  socket from the registry and decrements the connection count; rooms, their member
  sets and the feed table are left as they are. Removing from the registry twice is the
  same as once, and the close event of a transport is handled once. A heartbeat tick on
  an open transport whose last sign of life is older than twice the interval closes the
  transport with status 1000 and clears the timer; the teardown then follows from the
  close event of the transport.
\<close>

theorem teardown_effects:
  "ws \<notin> set (clients (handleClientDisconnection s ws))
   \<and> connectionCount (handleClientDisconnection s ws) = connectionCount s - 1
   \<and> rooms (handleClientDisconnection s ws) = rooms s
   \<and> orphanRooms (handleClientDisconnection s ws) = orphanRooms s
   \<and> dbSubscriptions (handleClientDisconnection s ws) = dbSubscriptions s
   \<and> clients (handleClientDisconnection (handleClientDisconnection s ws) ws)
       = clients (handleClientDisconnection s ws)
   \<and> (readyState (sockets s ws) = OPEN
        \<and> heartbeatInterval (config s) * 2 < now - lastHeartbeat (clientDatas s ws) \<longrightarrow>
      readyState (sockets (heartbeatTick s ws now) ws) = CLOSING
      \<and> closeArgs (sockets (heartbeatTick s ws now) ws) = Some (1000, ''Heartbeat timeout'')
      \<and> ws \<notin> heartbeatTimers (heartbeatTick s ws now)
      \<and> clients (heartbeatTick s ws now) = clients s
      \<and> rooms (heartbeatTick s ws now) = rooms s)
   \<and> (ws \<in> listeners s \<and> readyState (sockets s ws) \<noteq> CLOSED \<longrightarrow>
      ws \<notin> set (clients (step (CloseEv ws) s))
      \<and> connectionCount (step (CloseEv ws) s) = connectionCount s - 1
      \<and> rooms (step (CloseEv ws) s) = rooms s)
   \<and> step (CloseEv ws) (step (CloseEv ws) s) = step (CloseEv ws) s"
proof -
  have twice: "step (CloseEv ws) (step (CloseEv ws) s) = step (CloseEv ws) s"
    using closed_after_close [of ws s] by (subst step.simps(4)) simp
  have tick: "readyState (sockets s ws) = OPEN
        \<and> heartbeatInterval (config s) * 2 < now - lastHeartbeat (clientDatas s ws) \<longrightarrow>
      readyState (sockets (heartbeatTick s ws now) ws) = CLOSING
      \<and> closeArgs (sockets (heartbeatTick s ws now) ws) = Some (1000, ''Heartbeat timeout'')
      \<and> ws \<notin> heartbeatTimers (heartbeatTick s ws now)
      \<and> clients (heartbeatTick s ws now) = clients s
      \<and> rooms (heartbeatTick s ws now) = rooms s"
    by (simp add: heartbeatTick_def ws_close_def)
  have ev: "ws \<in> listeners s \<and> readyState (sockets s ws) \<noteq> CLOSED \<longrightarrow>
      ws \<notin> set (clients (step (CloseEv ws) s))
      \<and> connectionCount (step (CloseEv ws) s) = connectionCount s - 1
      \<and> rooms (step (CloseEv ws) s) = rooms s"
    by (simp add: Let_def handleClientDisconnection_def)
  show ?thesis
    using twice tick ev by (simp add: handleClientDisconnection_def)
qed

theorem teardown_effects_witness:
  "0 \<notin> set (clients (step (CloseEv 0) joined))
   \<and> connectionCount (step (CloseEv 0) joined) = 0
   \<and> rooms (step (CloseEv 0) joined) (JStr ''lobby'') = Some (generic_room [''c1''])
   \<and> readyState (sockets (heartbeatTick joined 0 60001) 0) = CLOSING
   \<and> 0 \<notin> heartbeatTimers (heartbeatTick joined 0 60001)"
proof -
  have a: "0 \<in> listeners joined \<and> readyState (sockets joined 0) \<noteq> CLOSED"
    by code_simp
  have b: "readyState (sockets joined 0) = OPEN
           \<and> heartbeatInterval (config joined) * 2 < 60001 - lastHeartbeat (clientDatas joined 0)"
    by code_simp
  have c: "connectionCount joined = 1" "rooms joined (JStr ''lobby'') = Some (generic_room [''c1''])"
    by code_simp+
  show ?thesis
    using teardown_effects [of 0 joined 60001] a b c by simp
qed

subsection \<open>C2: members of rooms and the registry\<close>

text \<open>
  C2, as stated, fails: after a client has joined a room and its transport has closed, the
  registry is empty and the identity is still a member of the room.
\<close>

theorem stale_member_after_close:
  "rooms joined_then_closed (JStr ''lobby'') = Some (generic_room [''c1''])
   \<and> clients joined_then_closed = []"
  by code_simp

text \<open>
  C2, amended: in every state that the events reach from the initial state, every identity
  in the member set of a room is the identity of a client that was accepted, and that
  client is a key of the registry as long as its transport is not closed; in particular
  it is in the registry when no close event has occurred.
\<close>

theorem room_members_were_accepted:
  assumes "rooms (run evs (initial cfg dbi)) roomId = Some r \<or> r \<in> set (orphanRooms (run evs (initial cfg dbi)))"
      and "cid \<in> set (room_clients r)"
  shows "\<exists>ws \<in> listeners (run evs (initial cfg dbi)).
           clientId (clientDatas (run evs (initial cfg dbi)) ws) = cid \<and>
           (readyState (sockets (run evs (initial cfg dbi)) ws) \<noteq> CLOSED
              \<longrightarrow> ws \<in> set (clients (run evs (initial cfg dbi)))) \<and>
           (\<not> list_ex is_close evs \<longrightarrow> ws \<in> set (clients (run evs (initial cfg dbi))))"
proof -
  let ?s = "run evs (initial cfg dbi)"
  have inv: "registered_while_open ?s" "members_accepted ?s"
    using run_invariants [OF initial_invariants(1-3)] by simp_all
  have "accepted_id ?s cid"
    using assms inv(2) unfolding members_accepted_def by blast
  then obtain ws where ws: "ws \<in> listeners ?s" "clientId (clientDatas ?s ws) = cid"
    unfolding accepted_id_def by blast
  have a: "readyState (sockets ?s ws) \<noteq> CLOSED \<longrightarrow> ws \<in> set (clients ?s)"
    using inv(1) ws(1) unfolding registered_while_open_def by blast
  have b: "\<not> list_ex is_close evs \<longrightarrow> readyState (sockets ?s ws) \<noteq> CLOSED"
    using run_none_closed [OF initial_invariants(4), of evs cfg dbi] ws(1)
    unfolding none_closed_def by blast
  show ?thesis
    using ws a b by blast
qed

theorem room_members_were_accepted_witness:
  "\<exists>ws \<in> listeners joined. clientId (clientDatas joined ws) = ''c1'' \<and> ws \<in> set (clients joined)"
proof -
  let ?evs = "[Connection ''10.0.0.1'' None ''c1'' 0, MessageEv 0 join_lobby 5]"
  have r: "rooms (run ?evs (initial defaults PlainDB)) (JStr ''lobby'') = Some (generic_room [''c1''])"
    by code_simp
  have c: "''c1'' \<in> set (room_clients (generic_room [''c1'']))"
    by (simp add: generic_room_def)
  have n: "\<not> list_ex is_close ?evs"
    by (simp add: is_close_def)
  show ?thesis
    using room_members_were_accepted [OF disjI1 [OF r] c] n
    unfolding joined_def by blast
qed

subsection \<open>C3: a room exists while it has members\<close>

text \<open>
  C3: from a state in which every room of the registry has a member (the initial state is
  one), after any sequence of \<open>join_room\<close> and \<open>leave_room\<close> messages a room is in
  the registry if and only if its member count is greater than zero. A join with a room
  identifier adds the sender's identity to the members of that room, creating the room
  when it is absent; a leave removes the identity, and the room is in the registry
  afterwards exactly when members remain.
\<close>

theorem room_exists_iff_members:
  assumes "rooms_nonempty s"
  shows "(rooms (fold membership ops s) roomId \<noteq> None) = (0 < member_count (fold membership ops s) roomId)
       \<and> members (handleJoinRoom s ws m) roomId =
           (if truthy (room_of m) \<and> \<not> is_reference (room_of m) \<and> roomId = room_of m
            then insert (clientId (clientDatas s ws)) (members s roomId) else members s roomId)
       \<and> members (handleLeaveRoom s ws m) roomId =
           (if truthy (room_of m) \<and> \<not> is_reference (room_of m) \<and> roomId = room_of m
            then members s roomId - {clientId (clientDatas s ws)} else members s roomId)
       \<and> (rooms (handleLeaveRoom s ws m) roomId \<noteq> None) = (members (handleLeaveRoom s ws m) roomId \<noteq> {})"
proof -
  have a: "rooms_nonempty (fold membership ops s)"
    using assms by (rule nonempty_fold_membership)
  have b: "(rooms t roomId \<noteq> None) = (0 < member_count t roomId)" if "rooms_nonempty t" for t
    using that by (auto simp: rooms_nonempty_def member_count_def split: option.splits)
  have c: "(rooms t roomId \<noteq> None) = (members t roomId \<noteq> {})" if "rooms_nonempty t" for t
    using that by (auto simp: rooms_nonempty_def members_def split: option.splits)
  show ?thesis
    using b [OF a] c [OF nonempty_handleLeaveRoom [OF assms]] members_join members_leave
    by simp
qed

theorem room_exists_iff_members_witness:
  "rooms (fold membership [Join 0 lobby, Join 1 lobby, Leave 0 lobby] two_clients) (JStr ''lobby'') \<noteq> None
   \<and> member_count (fold membership [Join 0 lobby, Join 1 lobby, Leave 0 lobby] two_clients) (JStr ''lobby'') = 1
   \<and> rooms (fold membership [Join 0 lobby, Join 1 lobby, Leave 0 lobby, Leave 1 lobby] two_clients)
        (JStr ''lobby'') = None
   \<and> member_count (fold membership [Join 0 lobby, Join 1 lobby, Leave 0 lobby, Leave 1 lobby] two_clients)
        (JStr ''lobby'') = 0"
proof -
  have e: "rooms two_clients = Map.empty"
    unfolding two_clients_def
    by (simp add: Let_def handleNewConnection_fields initial_def)
  have h: "rooms_nonempty two_clients"
    by (simp add: rooms_nonempty_def e)
  have c1: "member_count (fold membership [Join 0 lobby, Join 1 lobby, Leave 0 lobby] two_clients) (JStr ''lobby'') = 1"
    by code_simp
  have c0: "member_count (fold membership [Join 0 lobby, Join 1 lobby, Leave 0 lobby, Leave 1 lobby] two_clients)
        (JStr ''lobby'') = 0"
    by code_simp
  note t1 = room_exists_iff_members [OF h, of "[Join 0 lobby, Join 1 lobby, Leave 0 lobby]" "JStr ''lobby''",
      THEN conjunct1, unfolded c1]
  note t0 = room_exists_iff_members [OF h, of "[Join 0 lobby, Join 1 lobby, Leave 0 lobby, Leave 1 lobby]"
      "JStr ''lobby''", THEN conjunct1, unfolded c0]
  show ?thesis
    using t1 t0 c1 c0 by simp
qed

subsection \<open>C4: broadcast to a room\<close>

text \<open>
  C4, as stated, fails: the broadcast is behind the flag \<open>enableRoomBroadcast\<close>. With the
  flag off, a room whose only member is registered and open gets nothing, and the count
  is zero (so it is in every state, \<open>broadcast_disabled\<close>).
\<close>

theorem broadcast_when_disabled:
  "find_ws no_room_broadcast ''c1'' = Some 0
   \<and> readyState (sockets no_room_broadcast 0) = OPEN
   \<and> rooms no_room_broadcast (JStr ''lobby'') = Some (generic_room [''c1''])
   \<and> fst (broadcastToRoom no_room_broadcast (JStr ''lobby'') notice) = 0
   \<and> sent (sockets (snd (broadcastToRoom no_room_broadcast (JStr ''lobby'') notice)) 0)
       = sent (sockets no_room_broadcast 0)"
  by code_simp

text \<open>
  C4, amended: with room broadcast enabled, for a room of the registry (its members a
  set, as in every state that the events reach), \<open>broadcastToRoom\<close> returns the number
  of members that resolve to an open socket of the registry whose \<open>send\<close> does not
  raise, which is the number of live members when no \<open>send\<close> raises; a socket is sent
  the message, once, exactly when it is such a socket, so a member that is stale, not
  open, or whose \<open>send\<close> raises neither counts nor keeps the others from being served.
\<close>

theorem broadcast_reaches_live_members:
  assumes "enableRoomBroadcast (config s)"
      and "rooms_get s roomId = Some r"
      and "distinct (room_clients r)"
  shows "fst (broadcastToRoom s roomId m)
           = length (filter (\<lambda>cid. live_member s cid \<and> \<not> send_fails s cid) (room_clients r))
       \<and> sent (sockets (snd (broadcastToRoom s roomId m)) ws)
           = sent (sockets s ws) @ (if receives s r ws then [m] else [])
       \<and> (list_all (\<lambda>cid. \<not> send_fails s cid) (room_clients r) \<longrightarrow>
            fst (broadcastToRoom s roomId m) = length (filter (live_member s) (room_clients r)))"
proof -
  have b: "broadcastToRoom s roomId m = fold (deliver m) (room_clients r) (0, s)"
    using assms(1,2) by (simp add: broadcastToRoom_def)
  have r: "receives s r ws = receives s \<lparr>room_clients = room_clients r, table = table r, filters = filters r\<rparr> ws"
    by (simp add: receives_def)
  have c: "fst (broadcastToRoom s roomId m)
           = length (filter (\<lambda>cid. live_member s cid \<and> \<not> send_fails s cid) (room_clients r))"
    unfolding b fold_deliver_count by simp
  have d: "sent (sockets (snd (broadcastToRoom s roomId m)) ws)
           = sent (sockets s ws) @ (if receives s r ws then [m] else [])"
    unfolding b fold_deliver_sent count_resolving [OF assms(3), of s ws "table r" "filters r"] r
    by simp
  have e: "filter (\<lambda>cid. live_member s cid \<and> \<not> send_fails s cid) (room_clients r)
           = filter (live_member s) (room_clients r)"
    if "list_all (\<lambda>cid. \<not> send_fails s cid) (room_clients r)"
    using that by (intro filter_cong) (auto simp: list_all_iff)
  show ?thesis
    using c d e by simp
qed

theorem broadcast_reaches_live_members_witness:
  "fst (broadcastToRoom three_joined (JStr ''lobby'') notice) = 1
   \<and> length (filter (live_member three_joined) [''c1'', ''c2'', ''c3'']) = 1
   \<and> last (sent (sockets (snd (broadcastToRoom three_joined (JStr ''lobby'') notice)) 0)) = notice
   \<and> sent (sockets (snd (broadcastToRoom three_joined (JStr ''lobby'') notice)) 1)
       = sent (sockets three_joined 1)
   \<and> sent (sockets (snd (broadcastToRoom three_joined (JStr ''lobby'') notice)) 2)
       = sent (sockets three_joined 2)"
proof -
  have h: "enableRoomBroadcast (config three_joined)"
    "rooms_get three_joined (JStr ''lobby'') = Some (generic_room [''c1'', ''c2'', ''c3''])"
    "distinct (room_clients (generic_room [''c1'', ''c2'', ''c3'']))"
    by code_simp+
  have n: "length (filter (\<lambda>cid. live_member three_joined cid \<and> \<not> send_fails three_joined cid)
                     (room_clients (generic_room [''c1'', ''c2'', ''c3'']))) = 1"
    by code_simp
  have rc: "receives three_joined (generic_room [''c1'', ''c2'', ''c3'']) 0"
    "\<not> receives three_joined (generic_room [''c1'', ''c2'', ''c3'']) 1"
    "\<not> receives three_joined (generic_room [''c1'', ''c2'', ''c3'']) 2"
    by code_simp+
  have ok: "list_all (\<lambda>cid. \<not> send_fails three_joined cid)
              (room_clients (generic_room [''c1'', ''c2'', ''c3'']))"
    by code_simp
  have g: "room_clients (generic_room [''c1'', ''c2'', ''c3'']) = [''c1'', ''c2'', ''c3'']"
    by (simp add: generic_room_def)
  show ?thesis
    using broadcast_reaches_live_members [OF h, of notice 0]
      broadcast_reaches_live_members [OF h, of notice 1]
      broadcast_reaches_live_members [OF h, of notice 2] n rc ok
    unfolding g by simp
qed

subsection \<open>C5: the ceiling on connections\<close>

text \<open>
  C5: in a state that the events reach, when the connection count is at or above
  \<open>maxConnections\<close>, a new connection is closed at once with status 1013; nothing is
  sent on it, the registry, the client data, the listeners, the heartbeat timers and the
  count are unchanged, \<open>getStatus\<close> answers as before, and whatever events follow, its
  socket never becomes a key of the registry.
\<close>

theorem capacity_rejection:
  assumes "s = run evs0 (initial cfg dbi)"
      and "maxConnections (config s) \<le> connectionCount s"
  shows "readyState (sockets (step (Connection a u c now) s) (nextSocket s)) = CLOSING
       \<and> closeArgs (sockets (step (Connection a u c now) s) (nextSocket s))
           = Some (1013, ''Server overloaded'')
       \<and> sent (sockets (step (Connection a u c now) s) (nextSocket s)) = []
       \<and> clients (step (Connection a u c now) s) = clients s
       \<and> clientDatas (step (Connection a u c now) s) = clientDatas s
       \<and> listeners (step (Connection a u c now) s) = listeners s
       \<and> heartbeatTimers (step (Connection a u c now) s) = heartbeatTimers s
       \<and> connectionCount (step (Connection a u c now) s) = connectionCount s
       \<and> getStatus (step (Connection a u c now) s) = getStatus s
       \<and> nextSocket s \<notin> set (clients (run evs (step (Connection a u c now) s)))"
proof -
  let ?s' = "step (Connection a u c now) s"
  have now: "readyState (sockets ?s' (nextSocket s)) = CLOSING
       \<and> closeArgs (sockets ?s' (nextSocket s)) = Some (1013, ''Server overloaded'')
       \<and> sent (sockets ?s' (nextSocket s)) = []
       \<and> clients ?s' = clients s \<and> clientDatas ?s' = clientDatas s
       \<and> listeners ?s' = listeners s \<and> heartbeatTimers ?s' = heartbeatTimers s
       \<and> connectionCount ?s' = connectionCount s \<and> nextSocket ?s' = Suc (nextSocket s)"
    using assms(2) by (simp add: Let_def handleNewConnection_def ws_close_def new_socket_def)
  have st: "getStatus ?s' = getStatus s"
    using now assms(2) by (simp add: getStatus_def Let_def handleNewConnection_def)
  have "allocated s"
    using run_invariants [OF initial_invariants(1-3)] assms(1) by simp
  then have "nextSocket s \<notin> set (clients s)"
    by (auto simp: allocated_def)
  then have "nextSocket s \<notin> set (clients (run evs ?s'))"
    using now by (intro run_never_registered) simp_all
  then show ?thesis using now st by simp
qed

theorem capacity_rejection_witness:
  "readyState (sockets second_connection 1) = CLOSING
   \<and> closeArgs (sockets second_connection 1) = Some (1013, ''Server overloaded'')
   \<and> map info_id (status_clients (getStatus second_connection)) = [''c1'']
   \<and> 1 \<notin> set (clients (run [MessageEv 1 join_lobby 2] second_connection))"
proof -
  have full: "maxConnections (config one_client) \<le> connectionCount one_client"
    by code_simp
  have nx: "nextSocket one_client = 1"
    by code_simp
  have st: "map info_id (status_clients (getStatus one_client)) = [''c1'']"
    by code_simp
  note th = capacity_rejection [OF one_client_def full,
      of "''10.0.0.2''" None "''c2''" 1 "[MessageEv 1 join_lobby 2]",
      folded second_connection_def, unfolded nx]
  from th have "getStatus second_connection = getStatus one_client" by (elim conjE)
  then have "map info_id (status_clients (getStatus second_connection)) = [''c1'']"
    using st by (simp only:)
  then show ?thesis using th by (elim conjE) (intro conjI)
qed

subsection \<open>C6: validation of sensor data\<close>




subsection \<open>C7: one change feed for a table\<close>

text \<open>
  With a database whose \<open>subscribe\<close> returns the cancellation function (Firestore through
  \<open>FirebaseDB\<close>), two subscribers share one feed, and the feed is cancelled once when the
  last of them unsubscribes.
\<close>

lemma firestore_feed_cancelled_once:
  "feeds (run two_subscribers with_firestore) = [JStr ''sensors'']
   \<and> dbSubscriptions (run two_subscribers with_firestore) ''db_sensors'' = Some (CancelFunction (Some 0))
   \<and> rooms (run two_subscribers with_firestore) (JStr ''db_sensors'') = Some (sensors_room [''c1'', ''c2''])
   \<and> feeds (run (two_subscribers @ both_unsubscribe) with_firestore) = [JStr ''sensors'']
   \<and> cancelled (run (two_subscribers @ both_unsubscribe) with_firestore) = [0]
   \<and> rooms (run (two_subscribers @ both_unsubscribe) with_firestore) (JStr ''db_sensors'') = None
   \<and> dbSubscriptions (run (two_subscribers @ both_unsubscribe) with_firestore) ''db_sensors'' = None"
  by code_simp

text \<open>
  C7 fails on the code when the database is the \<open>DatabaseAdapter\<close>: its \<open>subscribe\<close>
  returns an object, \<open>_handleDatabaseUnsubscribe\<close> calls it as a function, and the call
  raises. One feed was created; after both clients have unsubscribed it has not been
  cancelled, the room is still in the registry with no member, the feed entry is still
  there, and the last client was answered with the error frame of the router.
\<close>

theorem adapter_feed_never_cancelled:
  "feeds (run (two_subscribers @ both_unsubscribe) with_adapter) = [JStr ''sensors'']
   \<and> cancelled (run (two_subscribers @ both_unsubscribe) with_adapter) = []
   \<and> rooms (run (two_subscribers @ both_unsubscribe) with_adapter) (JStr ''db_sensors'')
       = Some (sensors_room [])
   \<and> dbSubscriptions (run (two_subscribers @ both_unsubscribe) with_adapter) ''db_sensors''
       = Some (SubscriptionObject (Some 0))
   \<and> last (sent (sockets (run (two_subscribers @ both_unsubscribe) with_adapter) 1)) = invalidJsonFrame"
  by code_simp

subsection \<open>C8: the authentication gate\<close>

text \<open>
  C8 holds for sensor data, the four database operations and \<open>db_subscribe\<close>
  (\<open>gate_rejects\<close>). It fails on the code for \<open>join_room\<close>, \<open>leave_room\<close> and
  \<open>db_unsubscribe\<close>, whose handlers do not call \<open>_checkAuthAndSend\<close>: with
  authentication enabled, a client that has not authenticated joins the room of a table,
  is answered \<open>room_joined\<close>, and receives the broadcasts to that room.
\<close>

theorem join_room_is_not_gated:
  "enableAuthentication (config intruder)
   \<and> isAuthenticated (clientDatas intruder 0) = False
   \<and> rooms intruder (JStr ''db_sensors'') = Some (generic_room [''c1''])
   \<and> last (sent (sockets intruder 0)) = frame ''room_joined'' [(''roomId'', JStr ''db_sensors'')]
   \<and> fst (broadcastToRoom intruder (JStr ''db_sensors'') (frame ''db_change'' [])) = 1
   \<and> last (sent (sockets (snd (broadcastToRoom intruder (JStr ''db_sensors'') (frame ''db_change'' []))) 0))
       = frame ''db_change'' []"
  by code_simp

subsection \<open>C9: leaving twice\<close>

text \<open>
  C9 fails on the code for \<open>db_unsubscribe\<close> when the database is the
  \<open>DatabaseAdapter\<close>: the unsubscribe of the last member raises a \<open>TypeError\<close>, leaves the
  room in the registry with no member, and the second unsubscribe raises again. The
  registry after the second leave is the registry after the first, for \<open>leave_room\<close> and
  for \<open>db_unsubscribe\<close> alike (\<open>leave_room_twice\<close>, \<open>unsubscribe_twice\<close>); what the
  code misses is that no error is raised.
\<close>

theorem unsubscribe_raises:
  "raised (handleDatabaseUnsubscribe last_subscriber 0 unsubscribe_frame)
     = Some (TypeError ''unsubscribe is not a function'')
   \<and> raised (handleDatabaseUnsubscribe
        (state_of (handleDatabaseUnsubscribe last_subscriber 0 unsubscribe_frame))
        0 unsubscribe_frame)
     = Some (TypeError ''unsubscribe is not a function'')
   \<and> rooms (state_of (handleDatabaseUnsubscribe last_subscriber 0 unsubscribe_frame))
        (JStr ''db_sensors'') = Some (sensors_room [])"
  by code_simp

subsection \<open>C10: a failed authentication\<close>

text \<open>
  C10: with authentication enabled, an \<open>auth\<close> message whose token is not the configured
  one is answered, on an open transport, with an \<open>auth_response\<close> of success false; the
  flag of the client is unchanged, and a timer is set that stays pending through whatever
  other events follow. When it fires the transport is not open afterwards: fired at once
  it closes the transport with status 1008.
\<close>

theorem failed_authentication_closes:
  assumes "enableAuthentication (config s)"
      and "get_prop message ''token'' \<noteq> JStr (authToken (config s))"
      and "readyState (sockets s ws) = OPEN"
      and "\<not> sendThrows (sockets s ws)"
  shows "sent (sockets (handleAuthentication s ws message) ws) =
           sent (sockets s ws) @
             [frame ''auth_response'' [(''success'', JBool False),
                                       (''message'', JStr ''Invalid authentication token'')]]
       \<and> isAuthenticated (clientDatas (handleAuthentication s ws message) ws)
           = isAuthenticated (clientDatas s ws)
       \<and> closeArgs (sockets (step (AuthTimer ws) (handleAuthentication s ws message)) ws)
           = Some (1008, ''Authentication failed'')
       \<and> (AuthTimer ws \<notin> set evs \<longrightarrow>
            ws \<in> set (authTimers (run evs (handleAuthentication s ws message)))
            \<and> readyState (sockets (step (AuthTimer ws) (run evs (handleAuthentication s ws message))) ws)
                \<noteq> OPEN)"
proof -
  let ?s' = "handleAuthentication s ws message"
  have a: "sent (sockets ?s' ws) = sent (sockets s ws) @
             [frame ''auth_response'' [(''success'', JBool False),
                                       (''message'', JStr ''Invalid authentication token'')]]"
    "isAuthenticated (clientDatas ?s' ws) = isAuthenticated (clientDatas s ws)"
    "ws \<in> set (authTimers ?s')" "readyState (sockets ?s' ws) = OPEN"
    using assms by (simp_all add: handleAuthentication_def sendToClient_sent)
  have b: "closeArgs (sockets (step (AuthTimer ws) ?s') ws) = Some (1008, ''Authentication failed'')"
    using authTimer_closes(2) [OF a(3) a(4)] .
  have c: "ws \<in> set (authTimers (run evs ?s'))
           \<and> readyState (sockets (step (AuthTimer ws) (run evs ?s')) ws) \<noteq> OPEN"
    if "AuthTimer ws \<notin> set evs"
    using run_authTimers_pending [OF that a(3)] authTimer_closes(1) by blast
  show ?thesis using a b c by blast
qed

theorem failed_authentication_closes_witness:
  "sent (sockets (handleAuthentication guest 0 wrong_token) 0) =
     [frame ''welcome'' [(''clientId'', JStr ''c1''), (''authRequired'', JBool True)],
      frame ''auth_response'' [(''success'', JBool False),
                               (''message'', JStr ''Invalid authentication token'')]]
   \<and> closeArgs (sockets (step (AuthTimer 0) (handleAuthentication guest 0 wrong_token)) 0)
       = Some (1008, ''Authentication failed'')
   \<and> readyState (sockets (step (AuthTimer 0)
        (run [MessageEv 0 join_lobby 7] (handleAuthentication guest 0 wrong_token))) 0) \<noteq> OPEN"
proof -
  have h: "enableAuthentication (config guest)"
    "get_prop wrong_token ''token'' \<noteq> JStr (authToken (config guest))"
    "readyState (sockets guest 0) = OPEN" "\<not> sendThrows (sockets guest 0)"
    by code_simp+
  have w: "sent (sockets guest 0) =
     [frame ''welcome'' [(''clientId'', JStr ''c1''), (''authRequired'', JBool True)]]"
    by code_simp
  have n: "AuthTimer 0 \<notin> set [MessageEv 0 join_lobby 7]"
    by simp
  note th = failed_authentication_closes [OF h, of "[MessageEv 0 join_lobby 7]",
      unfolded w append.simps]
  show ?thesis using th n by blast
qed

end
